theory Spec2Isabelle
  imports Complex_Main "HOL-Library.Char_ord" "HOL-Library.List_Lexorder"
begin

section \<open>The MVP engine (app/game: types.ts, boards.ts, utils.ts, engine.ts)\<close>

text \<open>
  The repository holds two rule engines. The small one under \<^verbatim>\<open>app/game\<close> works on
  string identifiers and on edges that carry an owner; the play page
  (\<^verbatim>\<open>app/pages/play.vue\<close> and its later revision) works on numeric dot ids, an edge
  set and a triangle index. Both are embedded, the MVP engine first. Where the two
  engines use the same name, the MVP one carries the suffix \<open>_mvp\<close>.
\<close>

subsection \<open>types.ts\<close>

datatype PlayerId = HUMAN | AI

datatype GameStatus = idle | playing | ended

datatype BoardId = SMALL | MEDIUM

datatype Winner = WinnerIs PlayerId | DRAW

record Dot_mvp =
  dm_id :: string
  dm_x :: rat
  dm_y :: rat

record Edge_mvp =
  em_id :: string
  em_a :: string
  em_b :: string
  em_owner :: "PlayerId option"

text \<open>\<^verbatim>\<open>edgeIds: [string, string, string]\<close> is a triple.\<close>

record Triangle_mvp =
  tm_id :: string
  tm_edgeIds :: "string \<times> string \<times> string"
  tm_owner :: "PlayerId option"

record Dice =
  dice_value :: "int option"
  dice_sides :: int

text \<open>\<^verbatim>\<open>Scores = Record<PlayerId, number>\<close>: one number per player.\<close>

record Scores =
  score_HUMAN :: int
  score_AI :: int

text \<open>A move has the single type \<^verbatim>\<open>'CLAIM_EDGE'\<close>; only its edge id varies.\<close>

datatype Move_mvp = CLAIM_EDGE (edgeId: string)

record GameConfig =
  cfg_board :: BoardId
  cfg_diceSides :: int
  cfg_startingPlayer :: PlayerId

text \<open>\<^verbatim>\<open>Partial<GameConfig>\<close>: every field may be missing.\<close>

record PartialGameConfig =
  pcfg_board :: "BoardId option"
  pcfg_diceSides :: "int option"
  pcfg_startingPlayer :: "PlayerId option"

record GameState =
  gs_config :: GameConfig
  gs_status :: GameStatus
  gs_currentPlayer :: PlayerId
  gs_turn :: int
  gs_dice :: Dice
  gs_dots :: "Dot_mvp list"
  gs_edges :: "Edge_mvp list"
  gs_triangles :: "Triangle_mvp list"
  gs_scores :: Scores
  gs_lastMove :: "Move_mvp option"
  gs_lastTriangleCaptures :: "string list"
  gs_winner :: "Winner option"

subsection \<open>boards.ts\<close>

record BoardDef =
  bd_dots :: "Dot_mvp list"
  bd_edges :: "Edge_mvp list"
  bd_triangles :: "Triangle_mvp list"

text \<open>Template literals print a non-negative integer in decimal.\<close>

definition digit_char :: "nat \<Rightarrow> char" where
  "digit_char d = char_of (48 + d)"

function show_nat :: "nat \<Rightarrow> string" where
  "show_nat n = (if n < 10 then [digit_char n] else show_nat (n div 10) @ [digit_char (n mod 10)])"
  by pat_completeness auto
termination
  by (relation "measure id") auto

declare show_nat.simps [simp del]

definition dotId :: "nat \<Rightarrow> nat \<Rightarrow> string" where
  "dotId px py = ''D_'' @ show_nat px @ ''_'' @ show_nat py"

text \<open>
  \<^verbatim>\<open>a < b\<close> on JavaScript strings compares code units lexicographically, which on
  ASCII identifiers is the lexicographic order of \<^typ>\<open>char list\<close>.
\<close>

definition edgeId_of :: "string \<Rightarrow> string \<Rightarrow> string" where
  "edgeId_of a b = (let (p, q) = (if a < b then (a, b) else (b, a)) in ''E_'' @ p @ ''__'' @ q)"

definition toCoord :: "nat \<Rightarrow> rat" where
  "toCoord i = (of_nat i / 2) * 80 + 10"

text \<open>
  \<^verbatim>\<open>edgeMap\<close> is a JavaScript \<^verbatim>\<open>Map\<close>, which keeps insertion order: an association
  list that grows at its end. \<^verbatim>\<open>addEdge\<close> inserts only a new id and returns the id.
\<close>

type_synonym edgeMap = "(string \<times> Edge_mvp) list"

definition addEdge_mvp :: "edgeMap \<Rightarrow> string \<Rightarrow> string \<Rightarrow> edgeMap \<times> string" where
  "addEdge_mvp m a b =
     (let i = edgeId_of a b in
      if i \<in> fst ` set m then (m, i)
      else (m @ [(i, \<lparr>em_id = i, em_a = a, em_b = b, em_owner = None\<rparr>)], i))"

text \<open>The two nested \<^verbatim>\<open>for\<close> loops over the dot grid, in the order the source visits it.\<close>

definition dot_grid :: "Dot_mvp list" where
  "dot_grid = concat (map (\<lambda>gy. map (\<lambda>gx. \<lparr>dm_id = dotId gx gy, dm_x = toCoord gx, dm_y = toCoord gy\<rparr>)
                                   [0 ..< 3]) [0 ..< 3])"

definition horizontal_pairs :: "(string \<times> string) list" where
  "horizontal_pairs = concat (map (\<lambda>gy. map (\<lambda>gx. (dotId gx gy, dotId (gx + 1) gy)) [0 ..< 2]) [0 ..< 3])"

definition vertical_pairs :: "(string \<times> string) list" where
  "vertical_pairs = concat (map (\<lambda>gx. map (\<lambda>gy. (dotId gx gy, dotId gx (gy + 1))) [0 ..< 2]) [0 ..< 3])"

definition cells :: "(nat \<times> nat) list" where
  "cells = concat (map (\<lambda>cy. map (\<lambda>cx. (cx, cy)) [0 ..< 2]) [0 ..< 2])"

text \<open>The body of the per-cell loop: one diagonal, two triangles, \<^verbatim>\<open>++triCount\<close> before each.\<close>

definition cell_step :: "nat \<times> nat \<Rightarrow> edgeMap \<times> Triangle_mvp list \<times> nat \<Rightarrow> edgeMap \<times> Triangle_mvp list \<times> nat" where
  "cell_step c st =
     (case (c, st) of ((cx, cy), (m0, tris, triCount)) \<Rightarrow>
        let tl = dotId cx cy; tr = dotId (cx + 1) cy;
            bl = dotId cx (cy + 1); br = dotId (cx + 1) (cy + 1);
            (m1, diag) = addEdge_mvp m0 tl br;
            (m2, e1) = addEdge_mvp m1 tl tr;
            (m3, e2) = addEdge_mvp m2 tr br;
            trisA = tris @ [\<lparr>tm_id = ''T_'' @ show_nat (triCount + 1), tm_edgeIds = (e1, e2, diag), tm_owner = None\<rparr>];
            (m4, f1) = addEdge_mvp m3 tl bl;
            (m5, f2) = addEdge_mvp m4 bl br;
            trisB = trisA @ [\<lparr>tm_id = ''T_'' @ show_nat (triCount + 2), tm_edgeIds = (f1, f2, diag), tm_owner = None\<rparr>]
        in (m5, trisB, triCount + 2))"

definition createSmallBoard :: BoardDef where
  "createSmallBoard =
     (let m1 = fold (\<lambda>(a, b) m. fst (addEdge_mvp m a b)) horizontal_pairs [];
          m2 = fold (\<lambda>(a, b) m. fst (addEdge_mvp m a b)) vertical_pairs m1;
          (m3, tris, n) = fold cell_step cells (m2, [], 0)
      in \<lparr>bd_dots = dot_grid, bd_edges = map snd m3, bd_triangles = tris\<rparr>)"

subsection \<open>engine.ts\<close>

definition initialScores :: Scores where
  "initialScores = \<lparr>score_HUMAN = 0, score_AI = 0\<rparr>"

text \<open>
  \<^verbatim>\<open>newGame(config?)\<close>: the argument itself may be absent; \<^verbatim>\<open>config?.f ?? d\<close> takes the
  field when the config and the field are there, the default otherwise.
\<close>

definition opt_field :: "'c option \<Rightarrow> ('c \<Rightarrow> 'v option) \<Rightarrow> 'v \<Rightarrow> 'v" where
  "opt_field config f d = (case config of None \<Rightarrow> d | Some c \<Rightarrow> (case f c of None \<Rightarrow> d | Some v \<Rightarrow> v))"

definition newGame :: "PartialGameConfig option \<Rightarrow> GameState" where
  "newGame config =
     (let merged = \<lparr>cfg_board = opt_field config pcfg_board SMALL,
                    cfg_diceSides = opt_field config pcfg_diceSides 6,
                    cfg_startingPlayer = opt_field config pcfg_startingPlayer HUMAN\<rparr>;
          board = createSmallBoard
      in \<lparr>gs_config = merged,
          gs_status = playing,
          gs_currentPlayer = cfg_startingPlayer merged,
          gs_turn = 1,
          gs_dice = \<lparr>dice_value = None, dice_sides = cfg_diceSides merged\<rparr>,
          gs_dots = bd_dots board,
          gs_edges = bd_edges board,
          gs_triangles = bd_triangles board,
          gs_scores = initialScores,
          gs_lastMove = None,
          gs_lastTriangleCaptures = [],
          gs_winner = None\<rparr>)"

text \<open>
  \<^verbatim>\<open>Math.random()\<close> is a parameter \<open>r\<close>, a fraction in \<open>[0, 1)\<close>; the roll is
  \<^verbatim>\<open>Math.floor(r * sides) + 1\<close>.
\<close>

definition rollDice_mvp :: "rat \<Rightarrow> GameState \<Rightarrow> GameState" where
  "rollDice_mvp r state =
     (if gs_status state \<noteq> playing then state
      else state\<lparr>gs_dice := (gs_dice state)\<lparr>dice_value := Some (\<lfloor>r * of_int (dice_sides (gs_dice state))\<rfloor> + 1)\<rparr>\<rparr>)"


subsection \<open>utils.ts\<close>



subsection \<open>engine.ts: applyMove\<close>






section \<open>The play page engine (app/pages/play.vue, later revision)\<close>

text \<open>
  The page keeps its state in module-level reactive cells. Here they are the fields of
  one record that every operation takes and returns. Sound, animation timing and the
  flash message are left out. The \<^verbatim>\<open>async\<close> functions are split at the timers they wait
  for, see the subsection on asynchronous operations.

  Coordinates are JavaScript numbers. They are embedded as exact rationals: the
  orientation tests below are evaluated without rounding.
\<close>

subsection \<open>Types and utilities\<close>

text \<open>
  An edge key is the string \<^verbatim>\<open>`${x}_${y}`\<close> of two integers, smaller first. Decimal
  printing is injective, so the pair \<open>(x, y)\<close> stands for the string. In the same way
  a triangle id is the sorted triple.
\<close>

type_synonym EdgeKey = "int \<times> int"

type_synonym TriId = "int \<times> int \<times> int"

record Dot =
  dot_id :: int
  dot_x :: rat
  dot_y :: rat
  neighbors :: "int list"

text \<open>The timestamp \<^verbatim>\<open>t\<close> of an edge is left out.\<close>

record Edge =
  edge_a :: int
  edge_b :: int
  edge_key :: EdgeKey
  edge_owner :: int

record Player =
  player_id :: int
  score :: int
  isAI :: bool

record Triangle =
  tri_id :: TriId
  tri_a :: int
  tri_b :: int
  tri_c :: int
  tri_edges :: "EdgeKey \<times> EdgeKey \<times> EdgeKey"
  tri_owner :: "int option"

datatype Phase = Setup | Playing | Gameover

record Move =
  mv_a :: int
  mv_b :: int
  mv_key :: EdgeKey

definition makeEdgeKey :: "int \<Rightarrow> int \<Rightarrow> EdgeKey" where
  "makeEdgeKey a b = (min a b, max a b)"

definition triId :: "int \<Rightarrow> int \<Rightarrow> int \<Rightarrow> TriId" where
  "triId a b c = (case sort [a, b, c] of [s0, s1, s2] \<Rightarrow> (s0, s1, s2) | _ \<Rightarrow> (a, b, c))"

text \<open>
  \<^verbatim>\<open>triangles\<close> and \<^verbatim>\<open>triByEdge\<close> hold the same triangle objects: assigning an owner
  through one is seen through the other. The triangle list is therefore the store, and
  the index maps an edge key to positions in it.
\<close>

record Game =
  dots :: "Dot list"
  players :: "Player list"
  currentPlayerIndex :: nat
  phase :: Phase
  rolled :: "int option"
  linesLeft :: int
  edges :: "Edge list"
  edgeSet :: "EdgeKey set"
  triangles :: "Triangle list"
  triByEdge :: "EdgeKey \<Rightarrow> nat list option"
  selectedDotId :: "int option"

text \<open>\<^verbatim>\<open>dotsById\<close>: a \<^verbatim>\<open>Map\<close> filled in list order, so a later dot with the same id wins.\<close>

definition dotsById :: "Game \<Rightarrow> int \<Rightarrow> Dot option" where
  "dotsById s = map_of (rev (map (\<lambda>d. (dot_id d, d)) (dots s)))"

text \<open>\<^verbatim>\<open>players.value[currentPlayerIndex.value]\<close> is \<^verbatim>\<open>undefined\<close> out of range.\<close>

definition currentPlayer :: "Game \<Rightarrow> Player option" where
  "currentPlayer s =
     (if currentPlayerIndex s < length (players s) then Some (players s ! currentPlayerIndex s) else None)"

subsection \<open>Edge state\<close>

definition hasEdge :: "Game \<Rightarrow> int \<Rightarrow> int \<Rightarrow> bool" where
  "hasEdge s a b = (makeEdgeKey a b \<in> edgeSet s)"

definition edgeExists :: "Game \<Rightarrow> EdgeKey \<Rightarrow> bool" where
  "edgeExists s k = (k \<in> edgeSet s)"

definition addEdge :: "Game \<Rightarrow> int \<Rightarrow> int \<Rightarrow> Game \<times> bool" where
  "addEdge s a b =
     (let k = makeEdgeKey a b in
      if k \<in> edgeSet s then (s, False)
      else (s\<lparr>edgeSet := insert k (edgeSet s),
              edges := edges s @ [\<lparr>edge_a = min a b, edge_b = max a b, edge_key = k,
                                   edge_owner = (case currentPlayer s of None \<Rightarrow> 0 | Some p \<Rightarrow> player_id p)\<rparr>]\<rparr>,
            True))"

definition removeEdgeKey :: "Game \<Rightarrow> EdgeKey \<Rightarrow> Game" where
  "removeEdgeKey s k =
     (if k \<notin> edgeSet s then s
      else s\<lparr>edgeSet := edgeSet s - {k}, edges := filter (\<lambda>e. edge_key e \<noteq> k) (edges s)\<rparr>)"

subsection \<open>No-crossing geometry\<close>

datatype Pt = Pt (pt_x: rat) (pt_y: rat)

definition tol :: rat where
  "tol = 1 / 1000000000"

definition orient :: "Pt \<Rightarrow> Pt \<Rightarrow> Pt \<Rightarrow> rat" where
  "orient a b c = (pt_x b - pt_x a) * (pt_y c - pt_y a) - (pt_y b - pt_y a) * (pt_x c - pt_x a)"

definition onSegment :: "Pt \<Rightarrow> Pt \<Rightarrow> Pt \<Rightarrow> bool" where
  "onSegment a b p =
     (min (pt_x a) (pt_x b) \<le> pt_x p + tol \<and>
      pt_x p \<le> max (pt_x a) (pt_x b) + tol \<and>
      min (pt_y a) (pt_y b) \<le> pt_y p + tol \<and>
      pt_y p \<le> max (pt_y a) (pt_y b) + tol)"

definition segmentsCross :: "Pt \<Rightarrow> Pt \<Rightarrow> Pt \<Rightarrow> Pt \<Rightarrow> bool" where
  "segmentsCross a b c d =
     (let minAx = min (pt_x a) (pt_x b); maxAx = max (pt_x a) (pt_x b);
          minAy = min (pt_y a) (pt_y b); maxAy = max (pt_y a) (pt_y b);
          minCx = min (pt_x c) (pt_x d); maxCx = max (pt_x c) (pt_x d);
          minCy = min (pt_y c) (pt_y d); maxCy = max (pt_y c) (pt_y d)
      in if maxAx < minCx \<or> maxCx < minAx \<or> maxAy < minCy \<or> maxCy < minAy then False
         else
           let o1 = orient a b c; o2 = orient a b d; o3 = orient c d a; o4 = orient c d b in
           if (o1 > 0) \<noteq> (o2 > 0) \<and> (o3 > 0) \<noteq> (o4 > 0) then True
           else if \<bar>o1\<bar> < tol \<and> onSegment a b c then True
           else if \<bar>o2\<bar> < tol \<and> onSegment a b d then True
           else if \<bar>o3\<bar> < tol \<and> onSegment c d a then True
           else if \<bar>o4\<bar> < tol \<and> onSegment c d b then True
           else False)"

definition ptOf :: "Dot \<Rightarrow> Pt" where
  "ptOf d = Pt (dot_x d) (dot_y d)"

text \<open>
  \<^verbatim>\<open>dotsById.value.get(i)!\<close> only silences the type checker: reading \<^verbatim>\<open>x\<close> of a missing
  dot raises a TypeError. \<open>None\<close> is that exception, here and in every function that
  calls this one.
\<close>

fun crossLoop :: "(int \<Rightarrow> Dot option) \<Rightarrow> Pt \<Rightarrow> Pt \<Rightarrow> int \<Rightarrow> int \<Rightarrow> Edge list \<Rightarrow> bool option" where
  "crossLoop m A B aId bId [] = Some False"
| "crossLoop m A B aId bId (e # es) =
     (if edge_a e = aId \<or> edge_b e = aId \<or> edge_a e = bId \<or> edge_b e = bId
      then crossLoop m A B aId bId es
      else case m (edge_a e) of None \<Rightarrow> None
           | Some c \<Rightarrow> (case m (edge_b e) of None \<Rightarrow> None
               | Some d \<Rightarrow> if segmentsCross A B (ptOf c) (ptOf d) then Some True
                           else crossLoop m A B aId bId es))"

definition wouldCrossExistingEdge :: "Game \<Rightarrow> int \<Rightarrow> int \<Rightarrow> bool option" where
  "wouldCrossExistingEdge s aId bId =
     (case dotsById s aId of None \<Rightarrow> None
      | Some a \<Rightarrow> (case dotsById s bId of None \<Rightarrow> None
          | Some b \<Rightarrow> crossLoop (dotsById s) (ptOf a) (ptOf b) aId bId (edges s)))"

subsection \<open>Triangles\<close>

text \<open>The pairs \<^verbatim>\<open>(neigh[i], neigh[j])\<close> with \<^verbatim>\<open>i < j\<close>, in the order of the two loops.\<close>

definition neighborPairs :: "int list \<Rightarrow> (int \<times> int) list" where
  "neighborPairs neigh =
     concat (map (\<lambda>i. map (\<lambda>j. (neigh ! i, neigh ! j)) [Suc i ..< length neigh]) [0 ..< length neigh])"

text \<open>\<^verbatim>\<open>triMap\<close> is a \<^verbatim>\<open>Map\<close> in insertion order: an association list that grows at its end.\<close>

definition triStep :: "(int \<Rightarrow> Dot option) \<Rightarrow> int \<Rightarrow> int \<times> int \<Rightarrow> (TriId \<times> Triangle) list \<Rightarrow> (TriId \<times> Triangle) list" where
  "triStep dotMap a bc triMap =
     (case bc of (b, c) \<Rightarrow>
        case dotMap b of None \<Rightarrow> triMap
        | Some bDot \<Rightarrow>
            if c \<notin> set (neighbors bDot) then triMap
            else let i = triId a b c in
                 if i \<in> fst ` set triMap then triMap
                 else triMap @ [(i, \<lparr>tri_id = i, tri_a = a, tri_b = b, tri_c = c,
                                     tri_edges = (makeEdgeKey a b, makeEdgeKey b c, makeEdgeKey a c),
                                     tri_owner = None\<rparr>)])"

definition allTriangles :: "Game \<Rightarrow> Triangle list" where
  "allTriangles s =
     map snd (fold (\<lambda>aDot triMap. fold (triStep (dotsById s) (dot_id aDot)) (neighborPairs (neighbors aDot)) triMap)
                   (dots s) [])"

text \<open>
  The inverse index: \<^verbatim>\<open>index.get(ek)!.push(t)\<close> for each of the three keys of each
  triangle, the triangle \<open>t\<close> being position \<open>i\<close> of the list.
\<close>

definition indexPush :: "nat \<Rightarrow> EdgeKey \<Rightarrow> (EdgeKey \<Rightarrow> nat list option) \<Rightarrow> (EdgeKey \<Rightarrow> nat list option)" where
  "indexPush i ek idx = idx(ek \<mapsto> (case idx ek of None \<Rightarrow> [] | Some l \<Rightarrow> l) @ [i])"

definition edgeKeysOf :: "Triangle \<Rightarrow> EdgeKey list" where
  "edgeKeysOf t = (case tri_edges t of (e1, e2, e3) \<Rightarrow> [e1, e2, e3])"

definition buildIndex :: "Triangle list \<Rightarrow> (EdgeKey \<Rightarrow> nat list option)" where
  "buildIndex ts = fold (\<lambda>i idx. fold (indexPush i) (edgeKeysOf (ts ! i)) idx) [0 ..< length ts] Map.empty"

definition buildTriangles :: "Game \<Rightarrow> Game" where
  "buildTriangles s = (let ts = allTriangles s in s\<lparr>triangles := ts, triByEdge := buildIndex ts\<rparr>)"

text \<open>
  \<^verbatim>\<open>claimTrianglesForEdge\<close>. Reading \<^verbatim>\<open>currentPlayer.value.id\<close> without a current player
  raises, before anything of that triangle is written. The positions in an index list
  built by \<open>buildIndex\<close> are below the length of the triangle list; a position that is
  not is passed over.
\<close>

fun claimLoop :: "Game \<Rightarrow> nat list \<Rightarrow> nat \<Rightarrow> (Game \<times> nat) option" where
  "claimLoop s [] claimed = Some (s, claimed)"
| "claimLoop s (i # rest) claimed =
     (if i \<ge> length (triangles s) then claimLoop s rest claimed
      else let t = triangles s ! i in
        if tri_owner t \<noteq> None then claimLoop s rest claimed
        else case tri_edges t of (e1, e2, e3) \<Rightarrow>
          if edgeExists s e1 \<and> edgeExists s e2 \<and> edgeExists s e3
          then (case currentPlayer s of None \<Rightarrow> None
                | Some p \<Rightarrow>
                    claimLoop (s\<lparr>triangles := (triangles s)[i := t\<lparr>tri_owner := Some (player_id p)\<rparr>],
                                 players := (players s)[currentPlayerIndex s := p\<lparr>score := score p + 1\<rparr>]\<rparr>)
                              rest (claimed + 1))
          else claimLoop s rest claimed)"

definition claimTrianglesForEdge :: "Game \<Rightarrow> EdgeKey \<Rightarrow> (Game \<times> nat) option" where
  "claimTrianglesForEdge s edgeKey =
     claimLoop s (case triByEdge s edgeKey of None \<Rightarrow> [] | Some l \<Rightarrow> l) 0"

subsection \<open>Legal moves\<close>

definition allPotentialNeighborEdges :: "Game \<Rightarrow> Move list" where
  "allPotentialNeighborEdges s =
     concat (map (\<lambda>d. map (\<lambda>n. \<lparr>mv_a = dot_id d, mv_b = n, mv_key = makeEdgeKey (dot_id d) n\<rparr>)
                           (filter (\<lambda>n. dot_id d < n) (neighbors d)))
                 (dots s))"

definition allEdgesOnce :: "Game \<Rightarrow> Move list" where
  "allEdgesOnce s = allPotentialNeighborEdges s"

definition isLegalMove :: "Game \<Rightarrow> int \<Rightarrow> int \<Rightarrow> bool option" where
  "isLegalMove s a b =
     (if hasEdge s a b then Some False
      else case dotsById s a of None \<Rightarrow> Some False
           | Some da \<Rightarrow>
               if b \<notin> set (neighbors da) then Some False
               else (case wouldCrossExistingEdge s a b of None \<Rightarrow> None
                     | Some crossing \<Rightarrow> if crossing then Some False else Some True))"

fun legalLoop :: "Game \<Rightarrow> Move list \<Rightarrow> Move list option" where
  "legalLoop s [] = Some []"
| "legalLoop s (m # ms) =
     (case isLegalMove s (mv_a m) (mv_b m) of None \<Rightarrow> None
      | Some ok \<Rightarrow> (case legalLoop s ms of None \<Rightarrow> None
          | Some r \<Rightarrow> Some (if ok then m # r else r)))"

definition legalMovesList :: "Game \<Rightarrow> Move list option" where
  "legalMovesList s = legalLoop s (allEdgesOnce s)"

definition remainingLegalMovesCount :: "Game \<Rightarrow> nat option" where
  "remainingLegalMovesCount s = map_option length (legalMovesList s)"

definition hasAnyLegalMove :: "Game \<Rightarrow> bool option" where
  "hasAnyLegalMove s = map_option (\<lambda>n. n > 0) (remainingLegalMovesCount s)"

subsection \<open>Dice feasibility cap\<close>

text \<open>
  Randomness is an oracle \<open>rnd :: nat \<Rightarrow> nat\<close>: \<open>rnd k\<close> is the raw outcome of the
  \<open>k\<close>-th call of \<^verbatim>\<open>Math.random()\<close> and every operation returns how many calls it
  has made. \<^verbatim>\<open>Math.floor(Math.random() * n)\<close> is an index below \<open>n\<close>, here
  \<open>rnd k mod n\<close>; every index below \<open>n\<close> is the outcome for some oracle.
\<close>

definition pick :: "(nat \<Rightarrow> nat) \<Rightarrow> nat \<Rightarrow> 'a list \<Rightarrow> 'a" where
  "pick rnd k arr = arr ! (rnd k mod length arr)"

text \<open>
  One trial: the inner \<^verbatim>\<open>for (step = 0; step < depthCap; step++)\<close>, by recursion on the
  number of iterations left. The state is the game, \<^verbatim>\<open>addedKeys\<close>, \<^verbatim>\<open>count\<close>,
  \<^verbatim>\<open>best\<close> and the oracle position.
\<close>

fun trialLoop :: "(nat \<Rightarrow> nat) \<Rightarrow> nat \<Rightarrow> nat \<Rightarrow> Game \<times> EdgeKey list \<times> nat \<times> nat \<times> nat
                    \<Rightarrow> (Game \<times> EdgeKey list \<times> nat \<times> nat \<times> nat) option" where
  "trialLoop rnd depthCap 0 st = Some st"
| "trialLoop rnd depthCap (Suc n) (s, addedKeys, count, best, k) =
     (case legalMovesList s of None \<Rightarrow> None
      | Some legal \<Rightarrow>
          if legal = [] then Some (s, addedKeys, count, best, k)
          else let m = pick rnd k legal;
                   s1 = fst (addEdge s (mv_a m) (mv_b m));
                   added1 = addedKeys @ [mv_key m];
                   count1 = count + 1;
                   best1 = (if count1 > best then count1 else best)
               in if best1 \<ge> depthCap then Some (s1, added1, count1, best1, k + 1)
                  else trialLoop rnd depthCap n (s1, added1, count1, best1, k + 1))"

text \<open>\<^verbatim>\<open>for (i = addedKeys.length - 1; i >= 0; i--) removeEdgeKey(addedKeys[i])\<close>.\<close>

definition undoAdded :: "Game \<Rightarrow> EdgeKey list \<Rightarrow> Game" where
  "undoAdded s addedKeys = fold (\<lambda>k g. removeEdgeKey g k) (rev addedKeys) s"

fun triesLoop :: "(nat \<Rightarrow> nat) \<Rightarrow> nat \<Rightarrow> nat \<Rightarrow> Game \<times> nat \<times> nat \<Rightarrow> (Game \<times> nat \<times> nat) option" where
  "triesLoop rnd depthCap 0 st = Some st"
| "triesLoop rnd depthCap (Suc n) (s, best, k) =
     (case trialLoop rnd depthCap depthCap (s, [], 0, best, k) of None \<Rightarrow> None
      | Some (s1, addedKeys, count, best1, k1) \<Rightarrow> triesLoop rnd depthCap n (undoAdded s1 addedKeys, best1, k1))"

text \<open>The result is the game after the call, the estimate and the oracle position.\<close>

definition estimateMaxDrawableThisTurn :: "(nat \<Rightarrow> nat) \<Rightarrow> nat \<Rightarrow> nat \<Rightarrow> nat \<Rightarrow> Game \<Rightarrow> (Game \<times> nat \<times> nat) option" where
  "estimateMaxDrawableThisTurn rnd k maxDepth tries s =
     (case legalMovesList s of None \<Rightarrow> None
      | Some baseLegal \<Rightarrow>
          if baseLegal = [] then Some (s, 0, k)
          else triesLoop rnd (min maxDepth (length baseLegal)) tries (s, 1, k))"

subsection \<open>Game over, dice roll, end of turn\<close>

definition endGameIfNoMoves :: "Game \<Rightarrow> Game option" where
  "endGameIfNoMoves s =
     (case hasAnyLegalMove s of None \<Rightarrow> None
      | Some any \<Rightarrow>
          if \<not> any then Some (s\<lparr>phase := Gameover, rolled := None, linesLeft := 0, selectedDotId := None\<rparr>)
          else Some s)"

definition canRoll :: "Game \<Rightarrow> bool option" where
  "canRoll s =
     (if phase s \<noteq> Playing then Some False
      else if rolled s \<noteq> None \<and> linesLeft s > 0 then Some False
      else case currentPlayer s of None \<Rightarrow> Some False
           | Some p \<Rightarrow> if isAI p then Some False
                       else map_option (\<lambda>n. n > 0) (remainingLegalMovesCount s))"

text \<open>
  \<^verbatim>\<open>rollDice\<close>, \<^verbatim>\<open>endTurn\<close> and \<^verbatim>\<open>aiPlayTurn\<close> are \<^verbatim>\<open>async\<close> functions. Such a function
  runs without interruption up to an \<^verbatim>\<open>await\<close> on a timer; the rest of its body runs
  when the timer fires, after whatever clicks and other timers came first. So each of
  them is split at its timers: the part that runs at the call is the operation of that
  name, and what is left to do becomes a pending \<open>Task\<close> that the operation returns.

  \<^item> \<open>Animate n v c\<close>: \<^verbatim>\<open>animateDiceTo(v)\<close> has \<open>n\<close> throwaway faces left to show;
    after the last one it sets \<^verbatim>\<open>rolled\<close> to \<open>v\<close> and \<^verbatim>\<open>rollDice\<close> goes on with \<open>c\<close>:
    \<open>Grant\<close> is the code after \<^verbatim>\<open>await animateDiceTo(n)\<close>, \<open>EndCheck\<close> the code after
    \<^verbatim>\<open>await animateDiceTo(1)\<close>.
  \<^item> \<open>EndTurnRoll\<close>: \<^verbatim>\<open>endTurn\<close> after \<^verbatim>\<open>await sleep(420)\<close>, which calls \<^verbatim>\<open>rollDice\<close>.
  \<^item> \<open>AiLoop\<close>: \<^verbatim>\<open>aiPlayTurn\<close> after one of its sleeps, at the test of its \<^verbatim>\<open>while\<close> loop.

  The flags \<^verbatim>\<open>diceAnimating\<close> and \<^verbatim>\<open>diceSettle\<close> are only read by the style sheet and
  are left out, as are sounds and messages.
\<close>

datatype Cont = Grant | EndCheck

datatype Task = Animate nat int Cont | EndTurnRoll | AiLoop

text \<open>A throwaway face, \<^verbatim>\<open>Math.floor(Math.random() * 6) + 1\<close>.\<close>

definition face :: "(nat \<Rightarrow> nat) \<Rightarrow> nat \<Rightarrow> int" where
  "face rnd k = int (rnd k mod 6) + 1"

text \<open>
  \<^verbatim>\<open>animateDiceTo\<close> at the call: the first of its \<open>ticks\<close> faces is shown at once, the
  others follow one timer each (\<open>ticks\<close> is 16 here and 14 in the first revision).
\<close>

definition animateDiceTo :: "nat \<Rightarrow> (nat \<Rightarrow> nat) \<Rightarrow> nat \<Rightarrow> int \<Rightarrow> Cont \<Rightarrow> Game \<Rightarrow> Game \<times> nat \<times> Task list" where
  "animateDiceTo ticks rnd k finalValue c s =
     (s\<lparr>rolled := Some (face rnd k)\<rparr>, k + 1, [Animate (ticks - 1) finalValue c])"

text \<open>
  \<^verbatim>\<open>rollDice\<close> at the call, up to its \<^verbatim>\<open>await\<close>. The value \<open>n\<close> is computed here, from
  the estimate taken in the state of the call; \<^verbatim>\<open>linesLeft\<close> is not yet assigned.
\<close>

definition rollDice :: "(nat \<Rightarrow> nat) \<Rightarrow> nat \<Rightarrow> Game \<Rightarrow> (Game \<times> nat \<times> Task list) option" where
  "rollDice rnd k s =
     (if phase s \<noteq> Playing then Some (s, k, [])
      else if rolled s \<noteq> None \<and> linesLeft s > 0 then Some (s, k, [])
      else case remainingLegalMovesCount s of None \<Rightarrow> None
        | Some cnt \<Rightarrow>
            if cnt \<le> 0 then map_option (\<lambda>g. (g, k, [])) (endGameIfNoMoves s)
            else (case estimateMaxDrawableThisTurn rnd k 6 90 s of None \<Rightarrow> None
              | Some (s1, feasible, k1) \<Rightarrow>
                  let cap = min 6 feasible in
                  if cap \<le> 0 then Some (animateDiceTo 16 rnd k1 1 EndCheck s1)
                  else let n = int (rnd k1 mod cap) + 1 in
                       Some (animateDiceTo 16 rnd (k1 + 1) n Grant s1)))"

text \<open>
  \<^verbatim>\<open>aiPlayTurn\<close> at the call, up to \<^verbatim>\<open>await sleep(160)\<close>: it changes nothing and, past its
  three guards, leaves the loop pending. Reading \<^verbatim>\<open>isAI\<close> of a missing current player
  raises.
\<close>

definition aiPlayTurn :: "Game \<Rightarrow> Task list option" where
  "aiPlayTurn s =
     (if phase s \<noteq> Playing then Some []
      else case currentPlayer s of None \<Rightarrow> None
      | Some p \<Rightarrow>
          if \<not> isAI p then Some []
          else if rolled s = None \<or> linesLeft s \<le> 0 then Some []
          else Some [AiLoop])"

text \<open>
  The end of the animation and the rest of \<^verbatim>\<open>rollDice\<close>, in the state in which the
  last timer fires: \<^verbatim>\<open>rolled\<close> gets the final value, then the budget is granted (and
  the AI's turn started with \<^verbatim>\<open>void aiPlayTurn()\<close>), or the game-over check is made.
  Reading the name of a missing current player raises.
\<close>

definition rollDice_resume :: "int \<Rightarrow> Cont \<Rightarrow> Game \<Rightarrow> (Game \<times> Task list) option" where
  "rollDice_resume finalValue c s =
     (let s1 = s\<lparr>rolled := Some finalValue\<rparr> in
      case c of
        EndCheck \<Rightarrow> map_option (\<lambda>g. (g, [])) (endGameIfNoMoves s1)
      | Grant \<Rightarrow>
          let s2 = s1\<lparr>linesLeft := finalValue, selectedDotId := None\<rparr> in
          (case currentPlayer s2 of None \<Rightarrow> None
           | Some p \<Rightarrow> if isAI p then map_option (\<lambda>ts. (s2, ts)) (aiPlayTurn s2) else Some (s2, [])))"

text \<open>
  \<^verbatim>\<open>endTurn\<close> at the call, up to \<^verbatim>\<open>await sleep(420)\<close>. With no players the index becomes
  \<^verbatim>\<open>NaN\<close> and reading \<^verbatim>\<open>isAI\<close> of the missing current player raises.
\<close>

definition endTurn :: "Game \<Rightarrow> (Game \<times> Task list) option" where
  "endTurn s =
     (case endGameIfNoMoves (s\<lparr>rolled := None, linesLeft := 0, selectedDotId := None\<rparr>) of None \<Rightarrow> None
      | Some s1 \<Rightarrow>
          if phase s1 = Gameover then Some (s1, [])
          else if players s1 = [] then None
          else let s2 = s1\<lparr>currentPlayerIndex := (currentPlayerIndex s1 + 1) mod length (players s1)\<rparr> in
               (case currentPlayer s2 of None \<Rightarrow> None
                | Some p \<Rightarrow> if phase s2 = Playing \<and> isAI p then Some (s2, [EndTurnRoll]) else Some (s2, [])))"

subsection \<open>Selection and click\<close>

text \<open>\<^verbatim>\<open>onDotClick\<close> is synchronous; its \<^verbatim>\<open>void endTurn()\<close> runs \<open>endTurn\<close> at once.\<close>

definition onDotClick :: "int \<Rightarrow> Game \<Rightarrow> (Game \<times> Task list) option" where
  "onDotClick i s =
     (if phase s \<noteq> Playing then Some (s, [])
      else case currentPlayer s of None \<Rightarrow> None
      | Some cp \<Rightarrow>
        if isAI cp then Some (s, [])
        else case hasAnyLegalMove s of None \<Rightarrow> None
        | Some any \<Rightarrow>
          if \<not> any then map_option (\<lambda>g. (g, [])) (endGameIfNoMoves s)
          else if rolled s = None \<or> linesLeft s \<le> 0
            then Some (s\<lparr>selectedDotId := (if selectedDotId s = Some i then None else Some i)\<rparr>, [])
          else case selectedDotId s of None \<Rightarrow> Some (s\<lparr>selectedDotId := Some i\<rparr>, [])
          | Some a \<Rightarrow>
            let b = i in
            if a = b then Some (s\<lparr>selectedDotId := None\<rparr>, [])
            else if (case dotsById s a of None \<Rightarrow> True | Some da \<Rightarrow> b \<notin> set (neighbors da))
              then Some (s\<lparr>selectedDotId := Some b\<rparr>, [])
            else if hasEdge s a b then Some (s\<lparr>selectedDotId := Some b\<rparr>, [])
            else case wouldCrossExistingEdge s a b of None \<Rightarrow> None
            | Some crossing \<Rightarrow>
              if crossing then Some (s\<lparr>selectedDotId := Some b\<rparr>, [])
              else case addEdge s a b of (s1, ok) \<Rightarrow>
                if \<not> ok then Some (s1, [])
                else let s2 = s1\<lparr>linesLeft := max 0 (linesLeft s1 - 1)\<rparr> in
                  (case claimTrianglesForEdge s2 (makeEdgeKey a b) of None \<Rightarrow> None
                   | Some (s3, got) \<Rightarrow>
                     let s4 = s3\<lparr>selectedDotId := Some b\<rparr> in
                     (case hasAnyLegalMove s4 of None \<Rightarrow> None
                      | Some any2 \<Rightarrow>
                        if \<not> any2 then map_option (\<lambda>g. (g, [])) (endGameIfNoMoves s4)
                        else if linesLeft s4 = 0 then endTurn s4
                        else Some (s4, []))))"

subsection \<open>The AI's turn\<close>

text \<open>
  \<^verbatim>\<open>pickAIMoveWise\<close> scores the legal moves with floating-point weights and random
  jitter and returns one of them, or \<^verbatim>\<open>null\<close> when there is none. Which one is left
  to the oracle: the move is \<open>pick rnd k legal\<close>.
\<close>

definition pickAIMoveWise :: "(nat \<Rightarrow> nat) \<Rightarrow> nat \<Rightarrow> Game \<Rightarrow> Move option option" where
  "pickAIMoveWise rnd k s =
     (case legalMovesList s of None \<Rightarrow> None
      | Some legal \<Rightarrow> if legal = [] then Some None else Some (Some (pick rnd k legal)))"

text \<open>The code after the \<^verbatim>\<open>while\<close> loop of \<^verbatim>\<open>aiPlayTurn\<close>; its \<^verbatim>\<open>await endTurn()\<close> runs \<open>endTurn\<close> at once.\<close>

definition aiAfterLoop :: "Game \<Rightarrow> (Game \<times> Task list) option" where
  "aiAfterLoop s =
     (if phase s \<noteq> Playing then Some (s, [])
      else case currentPlayer s of None \<Rightarrow> None
      | Some p \<Rightarrow> if isAI p \<and> linesLeft s = 0 then endTurn s else Some (s, []))"

text \<open>
  \<^verbatim>\<open>aiPlayTurn\<close> when one of its sleeps is over: the loop test, and either one pass of
  the body up to \<^verbatim>\<open>await sleep(150)\<close>, which leaves the loop pending again, or the code
  after the loop. \<^verbatim>\<open>break\<close> goes to the code after the loop, \<^verbatim>\<open>return\<close> skips it.
\<close>

definition aiPlayTurn_resume :: "(nat \<Rightarrow> nat) \<Rightarrow> nat \<Rightarrow> Game \<Rightarrow> (Game \<times> nat \<times> Task list) option" where
  "aiPlayTurn_resume rnd k s =
     (if linesLeft s > 0 \<and> phase s = Playing
      then (case currentPlayer s of None \<Rightarrow> None
        | Some p \<Rightarrow>
          if \<not> isAI p then map_option (\<lambda>(g, ts). (g, k, ts)) (aiAfterLoop s)
          else (case pickAIMoveWise rnd k s of None \<Rightarrow> None
            | Some None \<Rightarrow>
                (case endGameIfNoMoves s of None \<Rightarrow> None
                 | Some g \<Rightarrow> map_option (\<lambda>(g', ts). (g', k, ts)) (aiAfterLoop g))
            | Some (Some move) \<Rightarrow>
                let s1 = fst (addEdge s (mv_a move) (mv_b move));
                    s2 = s1\<lparr>linesLeft := max 0 (linesLeft s1 - 1)\<rparr> in
                (case claimTrianglesForEdge s2 (mv_key move) of None \<Rightarrow> None
                 | Some (s3, got) \<Rightarrow>
                     (case hasAnyLegalMove s3 of None \<Rightarrow> None
                      | Some any \<Rightarrow>
                          if \<not> any then map_option (\<lambda>g. (g, k + 1, [])) (endGameIfNoMoves s3)
                          else Some (s3, k + 1, [AiLoop])))))
      else map_option (\<lambda>(g, ts). (g, k, ts)) (aiAfterLoop s))"

subsection \<open>Pending tasks\<close>

text \<open>
  What happens when the timer of a pending task fires. A face of the animation is one
  more assignment to \<^verbatim>\<open>rolled\<close>; after the last face \<^verbatim>\<open>rollDice\<close> resumes in the same
  step, as no event can come between the end of \<^verbatim>\<open>animateDiceTo\<close> and its caller.
\<close>

fun runTask :: "(nat \<Rightarrow> nat) \<Rightarrow> nat \<Rightarrow> Task \<Rightarrow> Game \<Rightarrow> (Game \<times> nat \<times> Task list) option" where
  "runTask rnd k (Animate (Suc n) v c) s = Some (s\<lparr>rolled := Some (face rnd k)\<rparr>, k + 1, [Animate n v c])"
| "runTask rnd k (Animate 0 v c) s = map_option (\<lambda>(g, ts). (g, k, ts)) (rollDice_resume v c s)"
| "runTask rnd k EndTurnRoll s = rollDice rnd k s"
| "runTask rnd k AiLoop s = aiPlayTurn_resume rnd k s"

subsection \<open>Setup and reset\<close>

definition hardResetState :: "Game \<Rightarrow> Game" where
  "hardResetState s =
     s\<lparr>edges := [], edgeSet := {}, rolled := None, linesLeft := 0, selectedDotId := None,
       currentPlayerIndex := 0,
       triangles := map (\<lambda>t. t\<lparr>tri_owner := None\<rparr>) (triangles s),
       players := map (\<lambda>p. p\<lparr>score := 0\<rparr>) (players s)\<rparr>"

definition startGame :: "Game \<Rightarrow> Game" where
  "startGame s =
     (hardResetState (s\<lparr>players := [\<lparr>player_id = 0, score = 0, isAI = False\<rparr>,
                                     \<lparr>player_id = 1, score = 0, isAI = True\<rparr>]\<rparr>))\<lparr>phase := Playing\<rparr>"

definition resetMatch :: "Game \<Rightarrow> Game" where
  "resetMatch s = (hardResetState s)\<lparr>phase := Playing\<rparr>"

text \<open>The page as it is loaded for a board: nothing drawn, the triangles indexed, phase \<^verbatim>\<open>setup\<close>.\<close>

definition initialGame :: "Dot list \<Rightarrow> Game" where
  "initialGame ds =
     buildTriangles \<lparr>dots = ds, players = [], currentPlayerIndex = 0, phase = Setup, rolled = None,
                     linesLeft = 0, edges = [], edgeSet = {}, triangles = [], triByEdge = Map.empty,
                     selectedDotId = None\<rparr>"

subsection \<open>The first revision of the page\<close>

text \<open>
  \<^verbatim>\<open>app/pages/play.vue\<close> has the same edge, geometry, triangle and legality code. Its
  \<^verbatim>\<open>rollDice\<close> has no feasibility cap: the roll is \<^verbatim>\<open>Math.floor(Math.random() * 6) + 1\<close>,
  shown after an animation of 14 faces and then granted as in \<open>rollDice_resume\<close>.
\<close>

definition rollDice_v1 :: "(nat \<Rightarrow> nat) \<Rightarrow> nat \<Rightarrow> Game \<Rightarrow> (Game \<times> nat \<times> Task list) option" where
  "rollDice_v1 rnd k s =
     (if phase s \<noteq> Playing then Some (s, k, [])
      else if rolled s \<noteq> None \<and> linesLeft s > 0 then Some (s, k, [])
      else let n = int (rnd k mod 6) + 1 in Some (animateDiceTo 14 rnd (k + 1) n Grant s))"

subsection \<open>Well-formed boards and states\<close>

text \<open>
  The board contract: dot ids are unique, neighbour lists have no duplicates and no
  self-loop, and every neighbour is a dot that lists the dot back.
\<close>

definition dotIds :: "Game \<Rightarrow> int set" where
  "dotIds s = dot_id ` set (dots s)"

definition board_ok :: "Game \<Rightarrow> bool" where
  "board_ok s =
     (distinct (map dot_id (dots s)) \<and>
      (\<forall>d \<in> set (dots s).
         distinct (neighbors d) \<and> dot_id d \<notin> set (neighbors d) \<and>
         (\<forall>n \<in> set (neighbors d). \<exists>d' \<in> set (dots s). dot_id d' = n \<and> dot_id d \<in> set (neighbors d'))))"

text \<open>Every drawn edge joins two dots of the board.\<close>

definition edges_in_board :: "Game \<Rightarrow> bool" where
  "edges_in_board s = (\<forall>e \<in> set (edges s). edge_a e \<in> dotIds s \<and> edge_b e \<in> dotIds s)"

text \<open>
  The three conditions of a legal move, in the words of the specification: \<open>a\<close> and
  \<open>b\<close> list each other, and the segment crosses a drawn edge when some drawn edge
  with no endpoint among \<open>a\<close>, \<open>b\<close> is reported by \<open>segmentsCross\<close>.
\<close>

definition mutualNeighbors :: "Game \<Rightarrow> int \<Rightarrow> int \<Rightarrow> bool" where
  "mutualNeighbors s a b =
     (\<exists>da db. dotsById s a = Some da \<and> dotsById s b = Some db \<and>
              b \<in> set (neighbors da) \<and> a \<in> set (neighbors db))"

definition crossesDrawn :: "Game \<Rightarrow> int \<Rightarrow> int \<Rightarrow> bool" where
  "crossesDrawn s a b =
     (\<exists>e \<in> set (edges s). \<exists>da db dc dd.
        edge_a e \<noteq> a \<and> edge_b e \<noteq> a \<and> edge_a e \<noteq> b \<and> edge_b e \<noteq> b \<and>
        dotsById s a = Some da \<and> dotsById s b = Some db \<and>
        dotsById s (edge_a e) = Some dc \<and> dotsById s (edge_b e) = Some dd \<and>
        segmentsCross (ptOf da) (ptOf db) (ptOf dc) (ptOf dd))"

subsection \<open>Example boards\<close>

text \<open>
  The unit square with both diagonals as potential edges: the two diagonals cross.
  \<open>squareDiag\<close> is a started match on it with the diagonal \<open>0\<close>--\<open>2\<close> drawn.
\<close>

definition squareDots :: "Dot list" where
  "squareDots =
     [\<lparr>dot_id = 0, dot_x = 0, dot_y = 0, neighbors = [1, 2, 3]\<rparr>,
      \<lparr>dot_id = 1, dot_x = 1, dot_y = 0, neighbors = [0, 2, 3]\<rparr>,
      \<lparr>dot_id = 2, dot_x = 1, dot_y = 1, neighbors = [0, 1, 3]\<rparr>,
      \<lparr>dot_id = 3, dot_x = 0, dot_y = 1, neighbors = [0, 1, 2]\<rparr>]"

definition squareStart :: Game where
  "squareStart = startGame (initialGame squareDots)"

definition squareDiag :: Game where
  "squareDiag = fst (addEdge squareStart 0 2)"

subsection \<open>The triangle index and the effect of a claim pass\<close>

















subsection \<open>Crossing as geometry\<close>

text \<open>
  Two closed segments meet when they have a point in common: the point at parameter
  \<open>t\<close> of the first is the point at parameter \<open>u\<close> of the second.
\<close>

definition segmentsMeet :: "Pt \<Rightarrow> Pt \<Rightarrow> Pt \<Rightarrow> Pt \<Rightarrow> bool" where
  "segmentsMeet a b c d =
     (\<exists>t u. 0 \<le> t \<and> t \<le> 1 \<and> 0 \<le> u \<and> u \<le> 1 \<and>
            pt_x a + t * (pt_x b - pt_x a) = pt_x c + u * (pt_x d - pt_x c) \<and>
            pt_y a + t * (pt_y b - pt_y a) = pt_y c + u * (pt_y d - pt_y c))"

text \<open>
  Two drawn edges meet when the segments between their dots do. Edges that share a dot
  are not compared, as in \<open>wouldCrossExistingEdge\<close>: touching at a common dot is not
  a crossing.
\<close>

definition edgesMeet :: "Game \<Rightarrow> Edge \<Rightarrow> Edge \<Rightarrow> bool" where
  "edgesMeet s e f =
     (\<exists>da db dc dd.
        dotsById s (edge_a e) = Some da \<and> dotsById s (edge_b e) = Some db \<and>
        dotsById s (edge_a f) = Some dc \<and> dotsById s (edge_b f) = Some dd \<and>
        segmentsMeet (ptOf da) (ptOf db) (ptOf dc) (ptOf dd))"

definition shareEndpoint :: "Edge \<Rightarrow> Edge \<Rightarrow> bool" where
  "shareEndpoint e f =
     (edge_a e = edge_a f \<or> edge_a e = edge_b f \<or> edge_b e = edge_a f \<or> edge_b e = edge_b f)"

definition noCrossing :: "Game \<Rightarrow> bool" where
  "noCrossing s =
     (\<forall>e \<in> set (edges s). \<forall>f \<in> set (edges s). \<not> shareEndpoint e f \<longrightarrow> \<not> edgesMeet s e f)"

text \<open>
  The edge list and the edge set hold the same keys, and every edge carries the
  canonical key of its endpoints.
\<close>

definition keys_consistent :: "Game \<Rightarrow> bool" where
  "keys_consistent s = (edge_key ` set (edges s) = edgeSet s)"

definition Core :: "Game \<Rightarrow> bool" where
  "Core s = (board_ok s \<and> edges_in_board s \<and> keys_consistent s)"

text \<open>
  A sequence of moves that can be drawn one after the other: each is legal in the
  state left by the ones before it.
\<close>

fun legalSeq :: "Game \<Rightarrow> Move list \<Rightarrow> bool" where
  "legalSeq s [] = True"
| "legalSeq s (m # ms) =
     (isLegalMove s (mv_a m) (mv_b m) = Some True \<and> legalSeq (fst (addEdge s (mv_a m) (mv_b m))) ms)"

definition addAll :: "Game \<Rightarrow> Move list \<Rightarrow> Game" where
  "addAll s ms = fold (\<lambda>m g. fst (addEdge g (mv_a m) (mv_b m))) ms s"

subsection \<open>Reachable states\<close>

text \<open>
  The assignments of \<open>endGameIfNoMoves\<close> when no legal move is left.
\<close>

definition gameOver :: "Game \<Rightarrow> Game" where
  "gameOver s = s\<lparr>phase := Gameover, rolled := None, linesLeft := 0, selectedDotId := None\<rparr>"

text \<open>
  A match is a state together with the tasks that are pending. One step of a match is
  one event: a click on the dice, which calls \<^verbatim>\<open>rollDice\<close> when \<^verbatim>\<open>canRoll\<close> holds; a
  click on a dot; or the timer of any pending task. Timers may fire in any order and
  random choices may have any outcome. An operation that raises has no successor.
  A step of the page is a step of a match or a click on Reset or Play Again, which the
  page offers once the match is started; the pending tasks stay pending.
\<close>

inductive matchStep :: "Game \<times> Task list \<Rightarrow> Game \<times> Task list \<Rightarrow> bool" where
  st_roll: "canRoll s = Some True \<Longrightarrow> rollDice rnd k s = Some (s', k', new) \<Longrightarrow> matchStep (s, ts) (s', ts @ new)"
| st_click: "onDotClick i s = Some (s', new) \<Longrightarrow> matchStep (s, ts) (s', ts @ new)"
| st_task: "runTask rnd k t s = Some (s', k', new) \<Longrightarrow> matchStep (s, ts1 @ t # ts2) (s', ts1 @ ts2 @ new)"

inductive step :: "Game \<times> Task list \<Rightarrow> Game \<times> Task list \<Rightarrow> bool" where
  st_match: "matchStep c c' \<Longrightarrow> step c c'"
| st_reset: "phase s \<noteq> Setup \<Longrightarrow> step (s, ts) (resetMatch s, ts)"

text \<open>The matches on the board \<open>ds\<close>: the match is started, and then any steps are taken.\<close>

inductive reachable :: "Dot list \<Rightarrow> Game \<times> Task list \<Rightarrow> bool" for ds :: "Dot list" where
  r_start: "board_ok (initialGame ds) \<Longrightarrow> reachable ds (startGame (initialGame ds), [])"
| r_step: "reachable ds c \<Longrightarrow> step c c' \<Longrightarrow> reachable ds c'"

subsection \<open>Playing a list of events\<close>

text \<open>
  A match played by a script: a click on the dice (possible when \<^verbatim>\<open>canRoll\<close> holds), a
  click on a dot, a reset, or the timer of the pending task at a position of the list.
  \<open>observe\<close> shows phase, turn, dice, budget, drawn keys, legal keys, scores and
  pending tasks.
\<close>

datatype Event = Roll | Click int | Reset | Timer nat

fun fire :: "(nat \<Rightarrow> nat) \<Rightarrow> Event \<Rightarrow> Game \<times> nat \<times> Task list \<Rightarrow> (Game \<times> nat \<times> Task list) option" where
  "fire rnd Roll (s, k, ts) =
     (if canRoll s = Some True then map_option (\<lambda>(s', k', new). (s', k', ts @ new)) (rollDice rnd k s) else None)"
| "fire rnd (Click i) (s, k, ts) = map_option (\<lambda>(s', new). (s', k, ts @ new)) (onDotClick i s)"
| "fire rnd Reset (s, k, ts) = (if phase s \<noteq> Setup then Some (resetMatch s, k, ts) else None)"
| "fire rnd (Timer j) (s, k, ts) =
     (if j < length ts
      then map_option (\<lambda>(s', k', new). (s', k', take j ts @ drop (Suc j) ts @ new)) (runTask rnd k (ts ! j) s)
      else None)"

fun play :: "(nat \<Rightarrow> nat) \<Rightarrow> Event list \<Rightarrow> Game \<times> nat \<times> Task list \<Rightarrow> (Game \<times> nat \<times> Task list) option" where
  "play rnd [] c = Some c"
| "play rnd (e # es) c = (case fire rnd e c of None \<Rightarrow> None | Some c' \<Rightarrow> play rnd es c')"

type_synonym Observation =
  "Phase \<times> nat \<times> int option \<times> int \<times> EdgeKey list \<times> EdgeKey list option \<times> int list \<times> Task list"

definition observe :: "(Game \<times> nat \<times> Task list) option \<Rightarrow> Observation option" where
  "observe c = map_option (\<lambda>(s, k, ts).
     (phase s, currentPlayerIndex s, rolled s, linesLeft s, map edge_key (edges s),
      map_option (map mv_key) (legalMovesList s), map score (players s), ts)) c"

text \<open>The triangle board: three dots, each a neighbour of the other two.\<close>

definition triDots :: "Dot list" where
  "triDots =
     [\<lparr>dot_id = 0, dot_x = 0, dot_y = 0, neighbors = [1, 2]\<rparr>,
      \<lparr>dot_id = 1, dot_x = 2, dot_y = 0, neighbors = [0, 2]\<rparr>,
      \<lparr>dot_id = 2, dot_x = 1, dot_y = 2, neighbors = [0, 1]\<rparr>]"

definition triStart :: Game where
  "triStart = startGame (initialGame triDots)"

text \<open>The oracle whose every random number is 2.\<close>

definition always2 :: "nat \<Rightarrow> nat" where
  "always2 i = 2"

text \<open>
  Two clicks on the dice; the timers of both animations, turn by turn, up to the end
  of the first animation; two clicks that draw the edge 0--1; the end of the second
  animation. \<open>staleReport\<close> observes the match then, after two more clicks, which draw
  1--2, and after a third, which draws 0--2.
\<close>

definition staleEvents :: "Event list" where
  "staleEvents = [Roll, Roll] @ replicate 31 (Timer 0) @ [Click 0, Click 1, Timer 0]"

definition staleReport :: "Observation option \<times> Observation option \<times> Observation option" where
  "staleReport =
     (let c = play always2 staleEvents (triStart, 0, []);
          c1 = (case c of None \<Rightarrow> None | Some c' \<Rightarrow> play always2 [Click 1, Click 2] c');
          c2 = (case c1 of None \<Rightarrow> None | Some c' \<Rightarrow> play always2 [Click 0] c')
      in (observe c, observe c1, observe c2))"

subsection \<open>What no operation of a match changes\<close>

text \<open>
  \<open>ownerMono s s'\<close>: the triangle list keeps its length and every triangle that has
  an owner in \<open>s\<close> has the same owner in \<open>s'\<close>. \<open>framed s s'\<close> adds what else
  stays: the board, the index, the players apart from their scores, and the edge keys
  of the triangles. \<open>scoresOnly s s'\<close>: nothing but triangle owners and scores differs.
\<close>

definition ownerMono :: "Game \<Rightarrow> Game \<Rightarrow> bool" where
  "ownerMono s s' =
     (length (triangles s') = length (triangles s) \<and>
      (\<forall>i < length (triangles s). \<forall>w. tri_owner (triangles s ! i) = Some w \<longrightarrow>
                                         tri_owner (triangles s' ! i) = Some w))"

definition framed :: "Game \<Rightarrow> Game \<Rightarrow> bool" where
  "framed s s' =
     (dots s' = dots s \<and> triByEdge s' = triByEdge s \<and>
      map isAI (players s') = map isAI (players s) \<and>
      map player_id (players s') = map player_id (players s) \<and>
      map edgeKeysOf (triangles s') = map edgeKeysOf (triangles s) \<and>
      ownerMono s s')"

definition scoresOnly :: "Game \<Rightarrow> Game \<Rightarrow> bool" where
  "scoresOnly s s' =
     (edges s' = edges s \<and> edgeSet s' = edgeSet s \<and> phase s' = phase s \<and> rolled s' = rolled s \<and>
      linesLeft s' = linesLeft s \<and> selectedDotId s' = selectedDotId s \<and>
      currentPlayerIndex s' = currentPlayerIndex s \<and> framed s s')"

text \<open>\<open>sameButEdges s s'\<close>: only the edge list and the edge set may differ.\<close>

definition sameButEdges :: "Game \<Rightarrow> Game \<Rightarrow> bool" where
  "sameButEdges s s' =
     (dots s' = dots s \<and> players s' = players s \<and> currentPlayerIndex s' = currentPlayerIndex s \<and>
      phase s' = phase s \<and> rolled s' = rolled s \<and> linesLeft s' = linesLeft s \<and>
      triangles s' = triangles s \<and> triByEdge s' = triByEdge s \<and> selectedDotId s' = selectedDotId s)"

text \<open>\<open>turnOnly s s'\<close>: board, players, turn order, triangles and index are the same.\<close>

definition turnOnly :: "Game \<Rightarrow> Game \<Rightarrow> bool" where
  "turnOnly s s' =
     (dots s' = dots s \<and> players s' = players s \<and> currentPlayerIndex s' = currentPlayerIndex s \<and>
      triangles s' = triangles s \<and> triByEdge s' = triByEdge s)"

text \<open>
  \<open>accepts s i a\<close>: a click on dot \<open>i\<close> draws the edge from the selected dot \<open>a\<close>:
  the match is on, it is a human's turn with budget left, and the move is legal.
\<close>

definition accepts :: "Game \<Rightarrow> int \<Rightarrow> int \<Rightarrow> bool" where
  "accepts s i a =
     (phase s = Playing \<and> (\<exists>cp. currentPlayer s = Some cp \<and> \<not> isAI cp) \<and>
      hasAnyLegalMove s = Some True \<and> rolled s \<noteq> None \<and> linesLeft s > 0 \<and>
      selectedDotId s = Some a \<and> a \<noteq> i \<and> isLegalMove s a i = Some True)"

text \<open>The state after the edge is drawn and the budget is lowered, before the claim pass.\<close>

definition drawn :: "Game \<Rightarrow> int \<Rightarrow> int \<Rightarrow> Game" where
  "drawn s a b = (fst (addEdge s a b))\<lparr>linesLeft := max 0 (linesLeft s - 1)\<rparr>"

section \<open>The MVP engine: the board that \<open>newGame\<close> builds\<close>

lemma createSmallBoard_sizes:
  "length (bd_dots createSmallBoard) = 9"
  "length (bd_edges createSmallBoard) = 16"
  "length (bd_triangles createSmallBoard) = 8"
  by code_simp+

text \<open>
  Claim C10. Whatever configuration \<open>newGame\<close> is given, also one that asks for the
  \<open>MEDIUM\<close> board or none at all, the state it returns has the dots, edges and
  triangles of \<open>createSmallBoard\<close> (9 dots, 16 edges, 8 triangles), status
  \<open>playing\<close>, both scores 0 and no dice value; the requested board is only recorded
  in the configuration.
\<close>

theorem newGame_always_small_board:
  "gs_dots (newGame config) = bd_dots createSmallBoard \<and>
   gs_edges (newGame config) = bd_edges createSmallBoard \<and>
   gs_triangles (newGame config) = bd_triangles createSmallBoard \<and>
   length (gs_dots (newGame config)) = 9 \<and>
   length (gs_edges (newGame config)) = 16 \<and>
   length (gs_triangles (newGame config)) = 8 \<and>
   gs_status (newGame config) = playing \<and>
   gs_scores (newGame config) = \<lparr>score_HUMAN = 0, score_AI = 0\<rparr> \<and>
   dice_value (gs_dice (newGame config)) = None \<and>
   cfg_board (gs_config (newGame config)) = opt_field config pcfg_board SMALL \<and>
   cfg_board (gs_config (newGame (Some \<lparr>pcfg_board = Some MEDIUM, pcfg_diceSides = ds, pcfg_startingPlayer = sp\<rparr>))) = MEDIUM"
  by (simp add: newGame_def Let_def createSmallBoard_sizes initialScores_def opt_field_def)

section \<open>The play page: legality\<close>

lemma dotsById_None: "dotsById s i = None \<longleftrightarrow> i \<notin> dotIds s"
  by (force simp: dotsById_def dotIds_def map_of_eq_None_iff)

lemma dotsById_Some_id: "dotsById s i = Some d \<Longrightarrow> dot_id d = i \<and> d \<in> set (dots s)"
  by (auto simp: dotsById_def dest!: map_of_SomeD)

lemma dotsById_distinct:
  "distinct (map dot_id (dots s)) \<Longrightarrow> d \<in> set (dots s) \<Longrightarrow> dotsById s (dot_id d) = Some d"
  unfolding dotsById_def
  by (rule map_of_is_SomeI) (auto simp: distinct_rev rev_map[symmetric] comp_def)

lemma crossLoop_Some:
  "\<forall>e \<in> set es. m (edge_a e) \<noteq> None \<and> m (edge_b e) \<noteq> None \<Longrightarrow>
   crossLoop m A B a b es =
     Some (\<exists>e \<in> set es. \<exists>dc dd. edge_a e \<noteq> a \<and> edge_b e \<noteq> a \<and> edge_a e \<noteq> b \<and> edge_b e \<noteq> b \<and>
              m (edge_a e) = Some dc \<and> m (edge_b e) = Some dd \<and> segmentsCross A B (ptOf dc) (ptOf dd))"
  by (induction es) (auto split: option.splits)

lemma wouldCross_Some:
  assumes "edges_in_board s" "dotsById s a = Some da" "dotsById s b = Some db"
  shows "wouldCrossExistingEdge s a b = Some (crossesDrawn s a b)"
proof -
  have "\<forall>e \<in> set (edges s). dotsById s (edge_a e) \<noteq> None \<and> dotsById s (edge_b e) \<noteq> None"
    using assms(1) by (simp add: edges_in_board_def dotsById_None)
  from crossLoop_Some[OF this] assms(2,3) show ?thesis
    by (auto simp: wouldCrossExistingEdge_def crossesDrawn_def)
qed

lemma isLegalMove_Some:
  assumes "board_ok s" "edges_in_board s"
  shows "isLegalMove s a b =
           Some (mutualNeighbors s a b \<and> makeEdgeKey a b \<notin> edgeSet s \<and> \<not> crossesDrawn s a b)"
proof (cases "dotsById s a")
  case None
  then show ?thesis by (simp add: isLegalMove_def hasEdge_def mutualNeighbors_def)
next
  case (Some da)
  show ?thesis
  proof (cases "b \<in> set (neighbors da)")
    case False
    with Some show ?thesis by (simp add: isLegalMove_def hasEdge_def mutualNeighbors_def)
  next
    case True
    from Some have da: "da \<in> set (dots s)" "dot_id da = a" using dotsById_Some_id by auto
    with True assms(1) obtain db where db: "db \<in> set (dots s)" "dot_id db = b" "a \<in> set (neighbors db)"
      unfolding board_ok_def by blast
    with assms(1) have sb: "dotsById s b = Some db"
      using dotsById_distinct[of s db] by (simp add: board_ok_def)
    have mn: "mutualNeighbors s a b" using Some sb True db by (auto simp: mutualNeighbors_def)
    show ?thesis
      using wouldCross_Some[OF assms(2) Some sb] Some True mn
      by (simp add: isLegalMove_def hasEdge_def)
  qed
qed

lemma legalLoop_filter:
  "\<forall>m \<in> set ms. isLegalMove s (mv_a m) (mv_b m) \<noteq> None \<Longrightarrow>
   legalLoop s ms = Some (filter (\<lambda>m. isLegalMove s (mv_a m) (mv_b m) = Some True) ms)"
  by (induction ms) auto

lemma legalMovesList_filter:
  assumes "board_ok s" "edges_in_board s"
  shows "legalMovesList s = Some (filter (\<lambda>m. isLegalMove s (mv_a m) (mv_b m) = Some True) (allEdgesOnce s))"
  unfolding legalMovesList_def
  by (rule legalLoop_filter) (simp add: isLegalMove_Some[OF assms])





lemma squareDiag_ok: "board_ok squareDiag" "edges_in_board squareDiag"
  by code_simp+



section \<open>The play page: triangle claims\<close>


















lemma addEdge_tri [simp]:
  "triangles (fst (addEdge s a b)) = triangles s"
  "triByEdge (fst (addEdge s a b)) = triByEdge s"
  "players (fst (addEdge s a b)) = players s"
  "currentPlayerIndex (fst (addEdge s a b)) = currentPlayerIndex s"
  "dots (fst (addEdge s a b)) = dots s"
  "phase (fst (addEdge s a b)) = phase s"
  "rolled (fst (addEdge s a b)) = rolled s"
  "selectedDotId (fst (addEdge s a b)) = selectedDotId s"
  by (simp_all add: addEdge_def Let_def)

















section \<open>Geometry: segments that meet are reported as crossing\<close>

lemma convex_between:
  fixes a b t :: rat
  assumes "0 \<le> t" "t \<le> 1"
  shows "min a b \<le> a + t * (b - a)" "a + t * (b - a) \<le> max a b"
proof -
  have e: "a + t * (b - a) = (1 - t) * a + t * b" by (simp add: algebra_simps)
  have "(1 - t) * min a b \<le> (1 - t) * a" "t * min a b \<le> t * b"
    using assms by (auto intro: mult_left_mono)
  then have "(1 - t) * min a b + t * min a b \<le> (1 - t) * a + t * b" by linarith
  then show "min a b \<le> a + t * (b - a)" unfolding e by (simp add: algebra_simps)
  have "(1 - t) * a \<le> (1 - t) * max a b" "t * b \<le> t * max a b"
    using assms by (auto intro: mult_left_mono)
  then have "(1 - t) * a + t * b \<le> (1 - t) * max a b + t * max a b" by linarith
  then show "a + t * (b - a) \<le> max a b" unfolding e by (simp add: algebra_simps)
qed

lemma tol_pos: "0 < tol"
  by (simp add: tol_def)

lemma onSegment_param:
  assumes "0 \<le> t" "t \<le> 1" "pt_x p = pt_x a + t * (pt_x b - pt_x a)" "pt_y p = pt_y a + t * (pt_y b - pt_y a)"
  shows "onSegment a b p"
  using convex_between[OF assms(1,2), of "pt_x a" "pt_x b"] convex_between[OF assms(1,2), of "pt_y a" "pt_y b"]
    assms(3,4) tol_pos
  by (simp add: onSegment_def)

lemma orient_param:
  assumes "pt_x p = pt_x a + t * (pt_x b - pt_x a)" "pt_y p = pt_y a + t * (pt_y b - pt_y a)"
  shows "orient a b p = 0"
  unfolding orient_def assms by (simp add: algebra_simps)

lemma orient_affine:
  assumes "pt_x p = pt_x c + u * (pt_x d - pt_x c)" "pt_y p = pt_y c + u * (pt_y d - pt_y c)"
  shows "orient a b p = (1 - u) * orient a b c + u * orient a b d"
  unfolding orient_def assms by (simp add: algebra_simps)

lemma segmentsCross_unfold:
  "segmentsCross a b c d \<longleftrightarrow>
     \<not> (max (pt_x a) (pt_x b) < min (pt_x c) (pt_x d) \<or> max (pt_x c) (pt_x d) < min (pt_x a) (pt_x b) \<or>
        max (pt_y a) (pt_y b) < min (pt_y c) (pt_y d) \<or> max (pt_y c) (pt_y d) < min (pt_y a) (pt_y b)) \<and>
     (((orient a b c > 0) \<noteq> (orient a b d > 0) \<and> (orient c d a > 0) \<noteq> (orient c d b > 0)) \<or>
      (\<bar>orient a b c\<bar> < tol \<and> onSegment a b c) \<or>
      (\<bar>orient a b d\<bar> < tol \<and> onSegment a b d) \<or>
      (\<bar>orient c d a\<bar> < tol \<and> onSegment c d a) \<or>
      (\<bar>orient c d b\<bar> < tol \<and> onSegment c d b))"
  unfolding segmentsCross_def Let_def by auto

text \<open>The sign analysis of a convex combination that vanishes.\<close>

lemma convex_zero_cases:
  fixes p q u :: rat
  assumes "0 \<le> u" "u \<le> 1" "(1 - u) * p + u * q = 0"
  shows "(p > 0) \<noteq> (q > 0) \<or> u = 0 \<and> p = 0 \<or> u = 1 \<and> q = 0 \<or> p = 0 \<and> q = 0"
proof (cases "p > 0 \<or> q > 0")
  case True
  show ?thesis
  proof (cases "p > 0 \<and> q > 0")
    case True
    then have "(1 - u) * p \<ge> 0" "u * q \<ge> 0" using assms by auto
    moreover have "(1 - u) * p > 0 \<or> u * q > 0"
    proof (cases "u = 0")
      case True
      then show ?thesis using \<open>p > 0 \<and> q > 0\<close> by simp
    next
      case False
      then have "u > 0" using assms by simp
      then show ?thesis using \<open>p > 0 \<and> q > 0\<close> by simp
    qed
    ultimately have "(1 - u) * p + u * q > 0" by linarith
    with assms show ?thesis by simp
  next
    case False
    with True show ?thesis by auto
  qed
next
  case False
  then have p: "p \<le> 0" and q: "q \<le> 0" by auto
  have a: "(1 - u) * p \<le> 0" using assms p by (simp add: mult_nonneg_nonpos)
  have b: "u * q \<le> 0" using assms q by (simp add: mult_nonneg_nonpos)
  from a b assms(3) have z: "(1 - u) * p = 0" "u * q = 0" by linarith+
  then have "(u = 1 \<or> p = 0) \<and> (u = 0 \<or> q = 0)" by auto
  then show ?thesis by auto
qed

lemma collinear_param:
  assumes "orient a b c = 0" "pt_x a \<noteq> pt_x b \<or> pt_y a \<noteq> pt_y b"
  shows "\<exists>g. pt_x c = pt_x a + g * (pt_x b - pt_x a) \<and> pt_y c = pt_y a + g * (pt_y b - pt_y a)"
proof (cases "pt_x a \<noteq> pt_x b")
  case True
  define g where "g = (pt_x c - pt_x a) / (pt_x b - pt_x a)"
  have nz: "pt_x b - pt_x a \<noteq> 0" using True by simp
  have x: "pt_x c = pt_x a + g * (pt_x b - pt_x a)" using nz by (simp add: g_def)
  have "(pt_x b - pt_x a) * (pt_y c - pt_y a) = (pt_y b - pt_y a) * (pt_x c - pt_x a)"
    using assms(1) by (simp add: orient_def)
  then have "pt_y c - pt_y a = (pt_y b - pt_y a) * (pt_x c - pt_x a) / (pt_x b - pt_x a)"
    using nz by (simp add: field_simps)
  then have "pt_y c = pt_y a + g * (pt_y b - pt_y a)" by (simp add: g_def field_simps)
  with x show ?thesis by blast
next
  case False
  then have xe: "pt_x a = pt_x b" and nz: "pt_y b - pt_y a \<noteq> 0" using assms(2) by auto
  define g where "g = (pt_y c - pt_y a) / (pt_y b - pt_y a)"
  have y: "pt_y c = pt_y a + g * (pt_y b - pt_y a)" using nz by (simp add: g_def)
  have "(pt_y b - pt_y a) * (pt_x c - pt_x a) = 0"
    using assms(1) xe by (simp add: orient_def)
  then have "pt_x c = pt_x a" using nz by simp
  then have "pt_x c = pt_x a + g * (pt_x b - pt_x a)" using xe by simp
  with y show ?thesis by blast
qed

lemma collinear_overlap:
  assumes o: "orient a b c = 0" "orient a b d = 0"
    and t: "0 \<le> t" "t \<le> 1" and u: "0 \<le> u" "u \<le> 1"
    and px: "pt_x a + t * (pt_x b - pt_x a) = pt_x c + u * (pt_x d - pt_x c)"
    and py: "pt_y a + t * (pt_y b - pt_y a) = pt_y c + u * (pt_y d - pt_y c)"
  shows "onSegment a b c \<or> onSegment a b d \<or> (orient c d a = 0 \<and> onSegment c d a)"
proof (cases "pt_x a \<noteq> pt_x b \<or> pt_y a \<noteq> pt_y b")
  case False
  then have "pt_x a = pt_x c + u * (pt_x d - pt_x c)" "pt_y a = pt_y c + u * (pt_y d - pt_y c)"
    using px py by auto
  then have "orient c d a = 0" "onSegment c d a"
    using orient_param[of a c u d] onSegment_param[OF u, of a c d] by auto
  then show ?thesis by simp
next
  case True
  from collinear_param[OF o(1) True] obtain g where
    g: "pt_x c = pt_x a + g * (pt_x b - pt_x a)" "pt_y c = pt_y a + g * (pt_y b - pt_y a)" by blast
  from collinear_param[OF o(2) True] obtain h where
    h: "pt_x d = pt_x a + h * (pt_x b - pt_x a)" "pt_y d = pt_y a + h * (pt_y b - pt_y a)" by blast
  have "(t - (g + u * (h - g))) * (pt_x b - pt_x a) = 0"
    using px unfolding g h by (simp add: algebra_simps)
  moreover have "(t - (g + u * (h - g))) * (pt_y b - pt_y a) = 0"
    using py unfolding g h by (simp add: algebra_simps)
  ultimately have teq: "t = g + u * (h - g)" using True by auto
  show ?thesis
  proof (cases "0 \<le> g \<and> g \<le> 1")
    case True
    then show ?thesis using onSegment_param[of g c a b] g by simp
  next
    case gout: False
    show ?thesis
    proof (cases "0 \<le> h \<and> h \<le> 1")
      case True
      then show ?thesis using onSegment_param[of h d a b] h by simp
    next
      case hout: False
      have conv: "t = (1 - u) * g + u * h" using teq by (simp add: algebra_simps)
      have between: "min g h \<le> t" "t \<le> max g h"
        using convex_between[OF u, of g h] teq by simp_all
      have opp: "(g < 0 \<and> 1 < h) \<or> (h < 0 \<and> 1 < g)"
        using gout hout between t by (auto simp: min_def max_def split: if_splits)
      then have ne: "g - h \<noteq> 0" by auto
      define v where "v = g / (g - h)"
      have v01: "0 \<le> v" "v \<le> 1"
        using opp by (auto simp: v_def field_simps)
      have vz: "g + v * (h - g) = 0"
        using ne by (simp add: v_def field_simps)
      have "pt_x c + v * (pt_x d - pt_x c) = pt_x a + (g + v * (h - g)) * (pt_x b - pt_x a)"
        unfolding g h by (simp add: algebra_simps)
      then have ax: "pt_x a = pt_x c + v * (pt_x d - pt_x c)" using vz by simp
      have "pt_y c + v * (pt_y d - pt_y c) = pt_y a + (g + v * (h - g)) * (pt_y b - pt_y a)"
        unfolding g h by (simp add: algebra_simps)
      then have ay: "pt_y a = pt_y c + v * (pt_y d - pt_y c)" using vz by simp
      from ax ay have "orient c d a = 0" "onSegment c d a"
        using orient_param[of a c v d] onSegment_param[OF v01, of a c d] by auto
      then show ?thesis by simp
    qed
  qed
qed

text \<open>
  Completeness of the code's test in exact arithmetic: two segments that have a point
  in common are reported as crossing.
\<close>

lemma segmentsMeet_imp_segmentsCross:
  assumes "segmentsMeet a b c d"
  shows "segmentsCross a b c d"
proof -
  from assms obtain t u where t: "0 \<le> t" "t \<le> 1" and u: "0 \<le> u" "u \<le> 1"
    and px: "pt_x a + t * (pt_x b - pt_x a) = pt_x c + u * (pt_x d - pt_x c)"
    and py: "pt_y a + t * (pt_y b - pt_y a) = pt_y c + u * (pt_y d - pt_y c)"
    unfolding segmentsMeet_def by blast
  define P where "P = Pt (pt_x a + t * (pt_x b - pt_x a)) (pt_y a + t * (pt_y b - pt_y a))"
  have Pab: "pt_x P = pt_x a + t * (pt_x b - pt_x a)" "pt_y P = pt_y a + t * (pt_y b - pt_y a)"
    by (simp_all add: P_def)
  have Pcd: "pt_x P = pt_x c + u * (pt_x d - pt_x c)" "pt_y P = pt_y c + u * (pt_y d - pt_y c)"
    using px py by (simp_all add: P_def)
  have box: "\<not> (max (pt_x a) (pt_x b) < min (pt_x c) (pt_x d) \<or> max (pt_x c) (pt_x d) < min (pt_x a) (pt_x b) \<or>
        max (pt_y a) (pt_y b) < min (pt_y c) (pt_y d) \<or> max (pt_y c) (pt_y d) < min (pt_y a) (pt_y b))"
    using convex_between[OF t, of "pt_x a" "pt_x b"] convex_between[OF t, of "pt_y a" "pt_y b"]
      convex_between[OF u, of "pt_x c" "pt_x d"] convex_between[OF u, of "pt_y c" "pt_y d"] px py
    by linarith
  have E1: "(1 - u) * orient a b c + u * orient a b d = 0"
    using orient_param[OF Pab] orient_affine[OF Pcd, of a b] by simp
  have E2: "(1 - t) * orient c d a + t * orient c d b = 0"
    using orient_param[OF Pcd] orient_affine[OF Pab, of c d] by simp
  let ?T2 = "\<bar>orient a b c\<bar> < tol \<and> onSegment a b c"
  let ?T3 = "\<bar>orient a b d\<bar> < tol \<and> onSegment a b d"
  let ?T4 = "\<bar>orient c d a\<bar> < tol \<and> onSegment c d a"
  let ?T5 = "\<bar>orient c d b\<bar> < tol \<and> onSegment c d b"
  have c1: "(orient a b c > 0) \<noteq> (orient a b d > 0) \<or> ?T2 \<or> ?T3 \<or> ?T4"
  proof -
    from convex_zero_cases[OF u E1]
    consider "(orient a b c > 0) \<noteq> (orient a b d > 0)" | "u = 0" "orient a b c = 0"
      | "u = 1" "orient a b d = 0" | "orient a b c = 0" "orient a b d = 0"
      by blast
    then show ?thesis
    proof cases
      case 1
      then show ?thesis by simp
    next
      case 2
      then have "pt_x c = pt_x a + t * (pt_x b - pt_x a)" "pt_y c = pt_y a + t * (pt_y b - pt_y a)"
        using px py by simp_all
      then have "onSegment a b c" by (rule onSegment_param[OF t])
      with 2 tol_pos show ?thesis by simp
    next
      case 3
      then have "pt_x d = pt_x a + t * (pt_x b - pt_x a)" "pt_y d = pt_y a + t * (pt_y b - pt_y a)"
        using px py by simp_all
      then have "onSegment a b d" by (rule onSegment_param[OF t])
      with 3 tol_pos show ?thesis by simp
    next
      case 4
      from collinear_overlap[OF 4 t u px py] 4 tol_pos show ?thesis by auto
    qed
  qed
  have c2: "(orient c d a > 0) \<noteq> (orient c d b > 0) \<or> ?T4 \<or> ?T5 \<or> ?T2"
  proof -
    from convex_zero_cases[OF t E2]
    consider "(orient c d a > 0) \<noteq> (orient c d b > 0)" | "t = 0" "orient c d a = 0"
      | "t = 1" "orient c d b = 0" | "orient c d a = 0" "orient c d b = 0"
      by blast
    then show ?thesis
    proof cases
      case 1
      then show ?thesis by simp
    next
      case 2
      then have "pt_x a = pt_x c + u * (pt_x d - pt_x c)" "pt_y a = pt_y c + u * (pt_y d - pt_y c)"
        using px py by simp_all
      then have "onSegment c d a" by (rule onSegment_param[OF u])
      with 2 tol_pos show ?thesis by simp
    next
      case 3
      then have "pt_x b = pt_x c + u * (pt_x d - pt_x c)" "pt_y b = pt_y c + u * (pt_y d - pt_y c)"
        using px py by simp_all
      then have "onSegment c d b" by (rule onSegment_param[OF u])
      with 3 tol_pos show ?thesis by simp
    next
      case 4
      from collinear_overlap[OF 4 u t px[symmetric] py[symmetric]] 4 tol_pos show ?thesis by auto
    qed
  qed
  from c1 c2 box show ?thesis
    unfolding segmentsCross_unfold by blast
qed

lemma segmentsMeet_swap_pair: "segmentsMeet c d a b = segmentsMeet a b c d"
  unfolding segmentsMeet_def by (metis (no_types, opaque_lifting))

lemma segmentsMeet_flip_aux:
  assumes "segmentsMeet a b c d"
  shows "segmentsMeet b a c d"
proof -
  from assms obtain t u where t: "0 \<le> t" "t \<le> 1" and u: "0 \<le> u" "u \<le> 1"
    and px: "pt_x a + t * (pt_x b - pt_x a) = pt_x c + u * (pt_x d - pt_x c)"
    and py: "pt_y a + t * (pt_y b - pt_y a) = pt_y c + u * (pt_y d - pt_y c)"
    unfolding segmentsMeet_def by blast
  have "0 \<le> 1 - t" "1 - t \<le> 1" using t by auto
  moreover have "pt_x b + (1 - t) * (pt_x a - pt_x b) = pt_x c + u * (pt_x d - pt_x c)"
    using px by (simp add: algebra_simps)
  moreover have "pt_y b + (1 - t) * (pt_y a - pt_y b) = pt_y c + u * (pt_y d - pt_y c)"
    using py by (simp add: algebra_simps)
  ultimately show ?thesis using u unfolding segmentsMeet_def by blast
qed

lemma segmentsMeet_flip: "segmentsMeet b a c d = segmentsMeet a b c d"
  using segmentsMeet_flip_aux by blast

section \<open>The play page: what the geometry and legality functions read\<close>

lemma dotsById_cong: "dots s' = dots s \<Longrightarrow> dotsById s' = dotsById s"
  by (simp add: dotsById_def fun_eq_iff)

lemma wouldCross_cong:
  assumes "dots s' = dots s" "edges s' = edges s"
  shows "wouldCrossExistingEdge s' a b = wouldCrossExistingEdge s a b"
  unfolding wouldCrossExistingEdge_def dotsById_cong[OF assms(1)] assms(2) by (rule refl)

lemma isLegalMove_cong:
  assumes "dots s' = dots s" "edges s' = edges s" "edgeSet s' = edgeSet s"
  shows "isLegalMove s' a b = isLegalMove s a b"
  unfolding isLegalMove_def hasEdge_def assms(3) dotsById_cong[OF assms(1)] wouldCross_cong[OF assms(1,2)]
  by (rule refl)

lemma legalLoop_cong:
  assumes "dots s' = dots s" "edges s' = edges s" "edgeSet s' = edgeSet s"
  shows "legalLoop s' ms = legalLoop s ms"
  by (induction ms) (auto simp: isLegalMove_cong[OF assms] split: option.splits)

lemma legalMovesList_cong:
  assumes "dots s' = dots s" "edges s' = edges s" "edgeSet s' = edgeSet s"
  shows "legalMovesList s' = legalMovesList s"
  using assms legalLoop_cong[OF assms]
  by (simp add: legalMovesList_def allEdgesOnce_def allPotentialNeighborEdges_def)

lemma hasAnyLegalMove_cong:
  assumes "dots s' = dots s" "edges s' = edges s" "edgeSet s' = edgeSet s"
  shows "hasAnyLegalMove s' = hasAnyLegalMove s" "remainingLegalMovesCount s' = remainingLegalMovesCount s"
  using legalMovesList_cong[OF assms] by (simp_all add: hasAnyLegalMove_def remainingLegalMovesCount_def)

lemma Core_cong:
  assumes "dots s' = dots s" "edges s' = edges s" "edgeSet s' = edgeSet s"
  shows "Core s' = Core s"
  using assms by (simp add: Core_def board_ok_def edges_in_board_def keys_consistent_def dotIds_def)

lemma noCrossing_cong:
  assumes "dots s' = dots s" "edges s' = edges s"
  shows "noCrossing s' = noCrossing s"
  using assms dotsById_cong[OF assms(1)] by (simp add: noCrossing_def edgesMeet_def)

section \<open>The play page: drawing and removing an edge\<close>

lemma legalMove_facts:
  assumes "Core s" "isLegalMove s a b = Some True"
  shows "mutualNeighbors s a b" "makeEdgeKey a b \<notin> edgeSet s" "\<not> crossesDrawn s a b"
    "a \<in> dotIds s" "b \<in> dotIds s"
proof -
  from assms have "board_ok s" "edges_in_board s" by (simp_all add: Core_def)
  from isLegalMove_Some[OF this, of a b] assms(2)
  show mn: "mutualNeighbors s a b" and "makeEdgeKey a b \<notin> edgeSet s" and "\<not> crossesDrawn s a b" by auto
  from mn have "dotsById s a \<noteq> None" "dotsById s b \<noteq> None" by (auto simp: mutualNeighbors_def)
  then show "a \<in> dotIds s" "b \<in> dotIds s" by (simp_all add: dotsById_None)
qed

lemma addEdge_new:
  assumes "makeEdgeKey a b \<notin> edgeSet s"
  shows "edgeSet (fst (addEdge s a b)) = insert (makeEdgeKey a b) (edgeSet s)"
    "\<exists>ow. edges (fst (addEdge s a b)) =
        edges s @ [\<lparr>edge_a = min a b, edge_b = max a b, edge_key = makeEdgeKey a b, edge_owner = ow\<rparr>]"
    "snd (addEdge s a b)"
  using assms by (simp_all add: addEdge_def Let_def)

lemma Core_addEdge:
  assumes "Core s" "isLegalMove s a b = Some True"
  shows "Core (fst (addEdge s a b))"
proof -
  note f = legalMove_facts[OF assms]
  from addEdge_new[OF f(2)] obtain ow where
    es: "edges (fst (addEdge s a b)) =
        edges s @ [\<lparr>edge_a = min a b, edge_b = max a b, edge_key = makeEdgeKey a b, edge_owner = ow\<rparr>]"
    and ks: "edgeSet (fst (addEdge s a b)) = insert (makeEdgeKey a b) (edgeSet s)" by blast
  have mm: "min a b \<in> dotIds s" "max a b \<in> dotIds s" using f(4,5) by (auto simp: min_def max_def)
  show ?thesis
    using assms(1) es ks mm
    by (auto simp: Core_def board_ok_def edges_in_board_def keys_consistent_def dotIds_def)
qed

lemma edgesMeet_sym: "edgesMeet s e f = edgesMeet s f e"
proof -
  have "edgesMeet s e f \<Longrightarrow> edgesMeet s f e" for e f
    unfolding edgesMeet_def using segmentsMeet_swap_pair by blast
  then show ?thesis by blast
qed

lemma noCrossing_addEdge:
  assumes "Core s" "noCrossing s" "isLegalMove s a b = Some True"
  shows "noCrossing (fst (addEdge s a b))"
proof -
  note f = legalMove_facts[OF assms(1,3)]
  let ?s' = "fst (addEdge s a b)"
  from addEdge_new[OF f(2)] obtain ow where
    es: "edges ?s' = edges s @ [\<lparr>edge_a = min a b, edge_b = max a b, edge_key = makeEdgeKey a b, edge_owner = ow\<rparr>]"
    by blast
  let ?n = "\<lparr>edge_a = min a b, edge_b = max a b, edge_key = makeEdgeKey a b, edge_owner = ow\<rparr>"
  have dm: "dotsById ?s' = dotsById s" by (rule dotsById_cong) simp
  have old: "edgesMeet ?s' e f = edgesMeet s e f" for e f by (simp add: edgesMeet_def dm)
  have new: "\<not> edgesMeet s ?n f \<and> \<not> edgesMeet s f ?n" if fe: "f \<in> set (edges s)" and ns: "\<not> shareEndpoint ?n f" for f
  proof -
    from ns have ends: "edge_a f \<noteq> a" "edge_b f \<noteq> a" "edge_a f \<noteq> b" "edge_b f \<noteq> b"
      by (auto simp: shareEndpoint_def min_def max_def split: if_splits)
    have nocross: "\<not> segmentsMeet (ptOf da) (ptOf db) (ptOf dc) (ptOf dd)"
      if "dotsById s a = Some da" "dotsById s b = Some db"
         "dotsById s (edge_a f) = Some dc" "dotsById s (edge_b f) = Some dd" for da db dc dd
    proof
      assume "segmentsMeet (ptOf da) (ptOf db) (ptOf dc) (ptOf dd)"
      then have "segmentsCross (ptOf da) (ptOf db) (ptOf dc) (ptOf dd)"
        by (rule segmentsMeet_imp_segmentsCross)
      with that fe ends have "crossesDrawn s a b" unfolding crossesDrawn_def by blast
      with f(3) show False by simp
    qed
    have m1: "\<not> edgesMeet s ?n f"
    proof (cases "a \<le> b")
      case True
      then have "min a b = a" "max a b = b" by auto
      then show ?thesis using nocross unfolding edgesMeet_def by auto
    next
      case False
      then have "min a b = b" "max a b = a" by auto
      moreover have "\<not> segmentsMeet (ptOf db) (ptOf da) (ptOf dc) (ptOf dd)"
        if "dotsById s a = Some da" "dotsById s b = Some db"
           "dotsById s (edge_a f) = Some dc" "dotsById s (edge_b f) = Some dd" for da db dc dd
        using nocross[OF that] by (simp add: segmentsMeet_flip)
      ultimately show ?thesis unfolding edgesMeet_def by auto
    qed
    then show ?thesis using edgesMeet_sym[of s f ?n] by simp
  qed
  have "\<not> edgesMeet ?s' e f" if ef: "e \<in> set (edges ?s')" "f \<in> set (edges ?s')" and nsh: "\<not> shareEndpoint e f" for e f
  proof -
    consider "e \<in> set (edges s)" "f \<in> set (edges s)" | "e = ?n" "f \<in> set (edges s)"
      | "e \<in> set (edges s)" "f = ?n" | "e = ?n" "f = ?n"
      using ef es by auto
    then show ?thesis
    proof cases
      case 1
      with assms(2) nsh show ?thesis by (simp add: old noCrossing_def)
    next
      case 2
      with new[of f] nsh show ?thesis by (simp add: old)
    next
      case 3
      have "\<not> shareEndpoint ?n e" using nsh 3 by (auto simp: shareEndpoint_def)
      with new[of e] 3 show ?thesis by (simp add: old)
    next
      case 4
      with nsh show ?thesis by (simp add: shareEndpoint_def)
    qed
  qed
  then show ?thesis unfolding noCrossing_def by blast
qed

lemma Core_removeEdgeKey: "Core s \<Longrightarrow> Core (removeEdgeKey s k)"
  by (auto simp: Core_def removeEdgeKey_def board_ok_def edges_in_board_def keys_consistent_def dotIds_def)

lemma noCrossing_removeEdgeKey: "noCrossing s \<Longrightarrow> noCrossing (removeEdgeKey s k)"
proof -
  have dm: "dotsById (removeEdgeKey s k) = dotsById s"
    by (rule dotsById_cong) (simp add: removeEdgeKey_def)
  have sub: "set (edges (removeEdgeKey s k)) \<subseteq> set (edges s)"
    by (auto simp: removeEdgeKey_def)
  assume "noCrossing s"
  then show ?thesis
    unfolding noCrossing_def edgesMeet_def dm using sub by blast
qed

lemma add_then_remove:
  assumes "keys_consistent s" "makeEdgeKey a b \<notin> edgeSet s"
  shows "removeEdgeKey (fst (addEdge s a b)) (makeEdgeKey a b) = s"
proof -
  have "\<forall>e \<in> set (edges s). edge_key e \<noteq> makeEdgeKey a b"
    using assms unfolding keys_consistent_def by (metis imageI)
  then have "filter (\<lambda>e. edge_key e \<noteq> makeEdgeKey a b) (edges s) = edges s"
    by (simp add: filter_id_conv)
  then show ?thesis
    using assms(2) by (simp add: removeEdgeKey_def addEdge_def Let_def)
qed

section \<open>The play page: the feasibility estimate\<close>

lemma legalLoop_sound:
  "legalLoop s ms = Some r \<Longrightarrow> m \<in> set r \<Longrightarrow> m \<in> set ms \<and> isLegalMove s (mv_a m) (mv_b m) = Some True"
  by (induction ms arbitrary: r) (auto split: option.splits if_splits)

lemma legalMoves_sound:
  assumes "legalMovesList s = Some legal" "m \<in> set legal"
  shows "isLegalMove s (mv_a m) (mv_b m) = Some True" "mv_key m = makeEdgeKey (mv_a m) (mv_b m)"
proof -
  from legalLoop_sound[OF assms(1)[unfolded legalMovesList_def] assms(2)]
  have a: "m \<in> set (allEdgesOnce s)" and b: "isLegalMove s (mv_a m) (mv_b m) = Some True" by auto
  show "isLegalMove s (mv_a m) (mv_b m) = Some True" by (rule b)
  from a show "mv_key m = makeEdgeKey (mv_a m) (mv_b m)"
    by (auto simp: allEdgesOnce_def allPotentialNeighborEdges_def)
qed

lemma pick_mem: "arr \<noteq> [] \<Longrightarrow> pick rnd k arr \<in> set arr"
  by (simp add: pick_def)

lemma Core_legalMoves: "Core s \<Longrightarrow> \<exists>legal. legalMovesList s = Some legal"
  using legalMovesList_filter[of s] by (simp add: Core_def)

lemma undoAdded_snoc: "undoAdded s (added @ [k]) = undoAdded (removeEdgeKey s k) added"
  by (simp add: undoAdded_def)

lemma addAll_snoc: "addAll s (ms @ [m]) = fst (addEdge (addAll s ms) (mv_a m) (mv_b m))"
  by (simp add: addAll_def)

lemma legalSeq_append:
  "legalSeq s (ms @ [m]) \<longleftrightarrow> legalSeq s ms \<and> isLegalMove (addAll s ms) (mv_a m) (mv_b m) = Some True"
  by (induction ms arbitrary: s) (auto simp: addAll_def)

lemma legalSeq_take: "legalSeq s ms \<Longrightarrow> legalSeq s (take n ms)"
proof (induction ms arbitrary: s n)
  case Nil
  then show ?case by simp
next
  case (Cons m ms)
  then show ?case by (cases n) auto
qed

lemma trialLoop_restores:
  assumes "Core s" "undoAdded s added = s0" "legalSeq s0 ms" "addAll s0 ms = s" "length ms = count"
    "T best" and achieved: "\<And>bs. legalSeq s0 bs \<Longrightarrow> T (length bs)"
  shows "\<exists>s' added' count' best' k'.
           trialLoop rnd dc n (s, added, count, best, k) = Some (s', added', count', best', k') \<and>
           Core s' \<and> undoAdded s' added' = s0 \<and> T best' \<and> best \<le> best'"
  using assms(1-6)
proof (induction n arbitrary: s added count best k ms)
  case 0
  then show ?case by simp
next
  case (Suc n)
  from Core_legalMoves[OF Suc.prems(1)] obtain legal where legal: "legalMovesList s = Some legal" by blast
  show ?case
  proof (cases "legal = []")
    case True
    with legal Suc.prems show ?thesis by simp
  next
    case False
    let ?m = "pick rnd k legal"
    let ?s1 = "fst (addEdge s (mv_a ?m) (mv_b ?m))"
    let ?best1 = "if count + 1 > best then count + 1 else best"
    have mem: "?m \<in> set legal" using False by (rule pick_mem)
    note lm = legalMoves_sound[OF legal mem]
    have core1: "Core ?s1" using Suc.prems(1) lm(1) by (rule Core_addEdge)
    have keyfree: "makeEdgeKey (mv_a ?m) (mv_b ?m) \<notin> edgeSet s"
      using legalMove_facts(2)[OF Suc.prems(1) lm(1)] .
    have "removeEdgeKey ?s1 (mv_key ?m) = s"
      using add_then_remove[OF _ keyfree] Suc.prems(1) lm(2) by (simp add: Core_def)
    then have undo1: "undoAdded ?s1 (added @ [mv_key ?m]) = s0"
      using Suc.prems(2) by (simp add: undoAdded_snoc)
    have seq1: "legalSeq s0 (ms @ [?m])"
      using Suc.prems(3,4) lm(1) by (simp add: legalSeq_append)
    have all1: "addAll s0 (ms @ [?m]) = ?s1"
      using Suc.prems(4) by (simp add: addAll_snoc)
    have len1: "length (ms @ [?m]) = count + 1" using Suc.prems(5) by simp
    have best1: "T ?best1"
      using achieved[OF seq1] len1 Suc.prems(6) by (cases "count + 1 > best") auto
    have le1: "best \<le> ?best1" by simp
    have step: "trialLoop rnd dc (Suc n) (s, added, count, best, k) =
                  (if ?best1 \<ge> dc then Some (?s1, added @ [mv_key ?m], count + 1, ?best1, k + 1)
                   else trialLoop rnd dc n (?s1, added @ [mv_key ?m], count + 1, ?best1, k + 1))"
      using legal False by (simp add: Let_def)
    show ?thesis
    proof (cases "?best1 \<ge> dc")
      case True
      with step core1 undo1 best1 le1 show ?thesis by auto
    next
      case False
      from Suc.IH[OF core1 undo1 seq1 all1 len1 best1, where k = "k + 1"]
      obtain s' added' count' best' k' where
        r: "trialLoop rnd dc n (?s1, added @ [mv_key ?m], count + 1, ?best1, k + 1) = Some (s', added', count', best', k')"
          "Core s'" "undoAdded s' added' = s0" "T best'" "?best1 \<le> best'"
        by blast
      from r(5) le1 have "best \<le> best'" by linarith
      with step False r show ?thesis by auto
    qed
  qed
qed

lemma trial_undone:
  assumes "Core s"
  shows "\<exists>s1 added count best1 k1.
           trialLoop rnd dc n (s, [], 0, best, k) = Some (s1, added, count, best1, k1) \<and> undoAdded s1 added = s"
proof -
  have "\<exists>s' added' count' best' k'.
           trialLoop rnd dc n (s, [], 0, best, k) = Some (s', added', count', best', k') \<and>
           Core s' \<and> undoAdded s' added' = s \<and> True \<and> best \<le> best'"
    by (rule trialLoop_restores[where ms = "[]" and T = "\<lambda>_. True"])
       (use assms in \<open>simp_all add: undoAdded_def addAll_def\<close>)
  then show ?thesis by blast
qed

lemma triesLoop_restores:
  assumes "Core s0" "\<exists>bs. legalSeq s0 bs \<and> length bs = best"
  shows "\<exists>best' k'. triesLoop rnd dc n (s0, best, k) = Some (s0, best', k') \<and>
           (\<exists>bs. legalSeq s0 bs \<and> length bs = best') \<and> best \<le> best'"
  using assms(2)
proof (induction n arbitrary: best k)
  case 0
  then show ?case by simp
next
  case (Suc n)
  have u0: "undoAdded s0 [] = s0" by (simp add: undoAdded_def)
  have a0: "addAll s0 [] = s0" by (simp add: addAll_def)
  have "\<exists>s' added' count' best' k'.
           trialLoop rnd dc dc (s0, [], 0, best, k) = Some (s', added', count', best', k') \<and>
           Core s' \<and> undoAdded s' added' = s0 \<and> (\<exists>bs. legalSeq s0 bs \<and> length bs = best') \<and> best \<le> best'"
    by (rule trialLoop_restores[where ms = "[]" and T = "\<lambda>b. \<exists>bs. legalSeq s0 bs \<and> length bs = b"])
       (use assms(1) u0 a0 Suc.prems in auto)
  then obtain s' added' count' best' k' where
    r: "trialLoop rnd dc dc (s0, [], 0, best, k) = Some (s', added', count', best', k')"
      "undoAdded s' added' = s0" "\<exists>bs. legalSeq s0 bs \<and> length bs = best'" "best \<le> best'"
    by blast
  from Suc.IH[OF r(3), where k = k'] obtain best'' k'' where
    t: "triesLoop rnd dc n (s0, best', k') = Some (s0, best'', k'')"
      "\<exists>bs. legalSeq s0 bs \<and> length bs = best''" "best' \<le> best''"
    by blast
  from r(4) t(3) have "best \<le> best''" by linarith
  with r t show ?case by auto
qed

lemma estimate_restores:
  assumes "Core s"
  shows "\<exists>best k'. estimateMaxDrawableThisTurn rnd k maxDepth tries s = Some (s, best, k') \<and>
           (\<exists>bs. legalSeq s bs \<and> length bs = best) \<and>
           (legalMovesList s = Some [] \<longrightarrow> best = 0) \<and>
           (legalMovesList s \<noteq> Some [] \<longrightarrow> 1 \<le> best)"
proof -
  from Core_legalMoves[OF assms] obtain legal where legal: "legalMovesList s = Some legal" by blast
  show ?thesis
  proof (cases "legal = []")
    case True
    with legal show ?thesis
      by (auto simp: estimateMaxDrawableThisTurn_def intro: exI[of _ "[]"])
  next
    case False
    then obtain m rest where mr: "legal = m # rest" by (cases legal) auto
    then have "isLegalMove s (mv_a m) (mv_b m) = Some True"
      using legalMoves_sound(1)[OF legal, of m] by simp
    then have "legalSeq s [m] \<and> length [m] = (1::nat)" by simp
    then have one: "\<exists>bs. legalSeq s bs \<and> length bs = (1::nat)" by blast
    from triesLoop_restores[OF assms one, where rnd = rnd and dc = "min maxDepth (length legal)" and n = tries and k = k]
    show ?thesis
      using legal False by (auto simp: estimateMaxDrawableThisTurn_def)
  qed
qed

lemma addEdge_cong:
  assumes "dots s' = dots s" "edges s' = edges s" "edgeSet s' = edgeSet s"
    "players s' = players s" "currentPlayerIndex s' = currentPlayerIndex s"
  shows "dots (fst (addEdge s' a b)) = dots (fst (addEdge s a b))"
    "edges (fst (addEdge s' a b)) = edges (fst (addEdge s a b))"
    "edgeSet (fst (addEdge s' a b)) = edgeSet (fst (addEdge s a b))"
  using assms by (simp_all add: addEdge_def Let_def currentPlayer_def)

lemma legalSeq_cong:
  assumes "dots s' = dots s" "edges s' = edges s" "edgeSet s' = edgeSet s"
    "players s' = players s" "currentPlayerIndex s' = currentPlayerIndex s"
  shows "legalSeq s' ms = legalSeq s ms"
  using assms
proof (induction ms arbitrary: s s')
  case Nil
  then show ?case by simp
next
  case (Cons m ms)
  have "legalSeq (fst (addEdge s' (mv_a m) (mv_b m))) ms = legalSeq (fst (addEdge s (mv_a m) (mv_b m))) ms"
    by (rule Cons.IH) (use Cons.prems addEdge_cong[OF Cons.prems(1-5)] in simp_all)
  then show ?case
    using isLegalMove_cong[OF Cons.prems(1-3)] by simp
qed

text \<open>
  Claim C9. In a state whose edge list and edge set agree, on a board that meets the
  board contract, \<open>estimateMaxDrawableThisTurn\<close> never raises and returns the very
  state it was called in: edge set, edge list, triangle owners and scores are what they
  were. Each single trial is undone in full: removing the keys it recorded, last first,
  gives back the state in which the trial began.
\<close>

theorem estimate_restores_state:
  assumes "Core s"
  shows "(\<exists>best k'. estimateMaxDrawableThisTurn rnd k maxDepth tries s = Some (s, best, k')) \<and>
         (\<exists>s1 added count best1 k1.
            trialLoop rnd dc n (s, [], 0, best0, k) = Some (s1, added, count, best1, k1) \<and>
            undoAdded s1 added = s)"
  using estimate_restores[OF assms, of rnd k maxDepth tries] trial_undone[OF assms, of rnd dc n best0 k]
  by blast

lemma squareDiag_Core: "Core squareDiag"
  unfolding Core_def by (intro conjI; code_simp)

lemma squareDiag_trials:
  "map_option (\<lambda>(g, best, k'). (map edge_key (edges g), best, k')) (estimateMaxDrawableThisTurn (\<lambda>i. i) 0 6 3 squareDiag)
     = Some ([(0, 2)], 4, 6)"
  by code_simp

theorem estimate_restores_state_witness:
  "Core squareDiag \<and>
   (\<exists>best k'. estimateMaxDrawableThisTurn (\<lambda>i. i) 0 6 90 squareDiag = Some (squareDiag, best, k')) \<and>
   (\<exists>s1 added count best1 k1.
      trialLoop (\<lambda>i. i) 6 6 (squareDiag, [], 0, 1, 0) = Some (s1, added, count, best1, k1) \<and>
      undoAdded s1 added = squareDiag) \<and>
   map_option (\<lambda>(g, best, k'). (map edge_key (edges g), best, k')) (estimateMaxDrawableThisTurn (\<lambda>i. i) 0 6 3 squareDiag)
     = Some ([(0, 2)], 4, 6)"
  using estimate_restores_state[OF squareDiag_Core, of "\<lambda>i. i" 0 6 90 6 6 1] squareDiag_Core squareDiag_trials
  by simp

text \<open>The budget is part of neither a draw nor a claim pass.\<close>

lemma claimLoop_linesLeft:
  "claimLoop s l c = Some (s', n) \<Longrightarrow> linesLeft s' = linesLeft s"
proof (induction l arbitrary: s c)
  case Nil
  then show ?case by simp
next
  case (Cons i rest)
  then show ?case
    by (fastforce simp: Let_def split: if_splits prod.splits option.splits)
qed

lemma addEdge_linesLeft: "linesLeft (fst (addEdge s a b)) = linesLeft s"
  by (simp add: addEdge_def Let_def)

section \<open>The play page: a roll that overlaps another\<close>

lemma fire_step: "fire rnd e (s, k, ts) = Some (s', k', ts') \<Longrightarrow> step (s, ts) (s', ts')"
proof (cases e)
  case Roll
  assume "fire rnd e (s, k, ts) = Some (s', k', ts')"
  with Roll show ?thesis by (auto split: if_splits intro: st_match st_roll)
next
  case (Click i)
  assume "fire rnd e (s, k, ts) = Some (s', k', ts')"
  with Click show ?thesis by (auto intro: st_match st_click)
next
  case Reset
  assume "fire rnd e (s, k, ts) = Some (s', k', ts')"
  with Reset show ?thesis by (auto split: if_splits intro: st_reset)
next
  case (Timer j)
  assume f: "fire rnd e (s, k, ts) = Some (s', k', ts')"
  with Timer obtain new where j: "j < length ts" and r: "runTask rnd k (ts ! j) s = Some (s', k', new)"
    and t: "ts' = take j ts @ drop (Suc j) ts @ new"
    by (auto split: if_splits)
  have "step (s, take j ts @ ts ! j # drop (Suc j) ts) (s', take j ts @ drop (Suc j) ts @ new)"
    using r by (intro st_match st_task)
  then show ?thesis using j t by (simp add: id_take_nth_drop[symmetric])
qed

lemma play_reachable:
  "reachable ds (s, ts) \<Longrightarrow> play rnd es (s, k, ts) = Some (s', k', ts') \<Longrightarrow> reachable ds (s', ts')"
proof (induction es arbitrary: s k ts)
  case Nil
  then show ?case by simp
next
  case (Cons e es)
  from Cons.prems(2) obtain s1 k1 ts1 where f: "fire rnd e (s, k, ts) = Some (s1, k1, ts1)"
    and p: "play rnd es (s1, k1, ts1) = Some (s', k', ts')"
    by (auto split: option.splits)
  from Cons.prems(1) fire_step[OF f] have "reachable ds (s1, ts1)" by (rule r_step)
  then show ?case using p by (rule Cons.IH)
qed

lemma triDots_ok: "board_ok (initialGame triDots)"
  by code_simp

lemma staleReport_value:
  "staleReport =
     (Some (Playing, 0, Some 3, 3, [(0, 1)], Some [(0, 2), (1, 2)], [0, 0], []),
      Some (Playing, 0, Some 3, 2, [(0, 1), (1, 2)], Some [(0, 2)], [0, 0], []),
      Some (Gameover, 0, None, 0, [(0, 1), (1, 2), (0, 2)], Some [], [1, 0], []))"
  by code_simp

text \<open>
  Claim C1 fails of the code. On the triangle board, with every random number 2, the
  human clicks the dice twice: the second click comes while the animation of the first
  roll runs, when \<^verbatim>\<open>linesLeft\<close> is still 0. Both rolls take their estimate on the empty
  board, where three edges can be drawn, and both compute the value 3. The first
  animation ends and grants 3; the human draws the edge 0--1; then the second animation
  ends and sets the budget to 3 again, in a state where two edges are left to draw. The
  match is on, it is the human's turn, and the budget of 3 cannot be used up: after two
  more draws no legal move is left and the match is over.
\<close>

theorem stale_grant_overcap:
  "\<exists>s k ts. play always2 staleEvents (triStart, 0, []) = Some (s, k, ts) \<and>
     reachable triDots (s, ts) \<and>
     phase s = Playing \<and> currentPlayerIndex s = 0 \<and> rolled s = Some 3 \<and> linesLeft s = 3 \<and>
     map edge_key (edges s) = [(0, 1)] \<and>
     map_option (map mv_key) (legalMovesList s) = Some [(0, 2), (1, 2)] \<and>
     observe (play always2 [Click 1, Click 2] (s, k, ts)) =
       Some (Playing, 0, Some 3, 2, [(0, 1), (1, 2)], Some [(0, 2)], [0, 0], []) \<and>
     observe (play always2 [Click 1, Click 2, Click 0] (s, k, ts)) =
       Some (Gameover, 0, None, 0, [(0, 1), (1, 2), (0, 2)], Some [], [1, 0], [])"
proof -
  from staleReport_value obtain s k ts where c: "play always2 staleEvents (triStart, 0, []) = Some (s, k, ts)"
    by (auto simp: staleReport_def observe_def Let_def)
  from staleReport_value c have o: "phase s = Playing" "currentPlayerIndex s = 0" "rolled s = Some 3"
    "linesLeft s = 3" "map edge_key (edges s) = [(0, 1)]"
    "map_option (map mv_key) (legalMovesList s) = Some [(0, 2), (1, 2)]"
    by (simp_all add: staleReport_def observe_def Let_def)
  from staleReport_value c have o1: "observe (play always2 [Click 1, Click 2] (s, k, ts)) =
       Some (Playing, 0, Some 3, 2, [(0, 1), (1, 2)], Some [(0, 2)], [0, 0], [])"
    by (simp add: staleReport_def Let_def)
  then obtain c1 where c1: "play always2 [Click 1, Click 2] (s, k, ts) = Some c1"
    by (auto simp: observe_def)
  have p3: "play always2 [Click 1, Click 2, Click 0] (s, k, ts) = play always2 [Click 0] c1"
    using c1 by (auto split: option.splits)
  from staleReport_value c c1 have o2: "observe (play always2 [Click 1, Click 2, Click 0] (s, k, ts)) =
       Some (Gameover, 0, None, 0, [(0, 1), (1, 2), (0, 2)], Some [], [1, 0], [])"
    unfolding p3 by (simp add: staleReport_def Let_def)
  have "reachable triDots (triStart, [])"
    unfolding triStart_def using triDots_ok by (rule r_start)
  then have r: "reachable triDots (s, ts)" using c by (rule play_reachable)
  show ?thesis
    apply (rule exI[of _ s], rule exI[of _ k], rule exI[of _ ts])
    using c r o o1 o2 by simp
qed

end
